theory Spec2Isabelle
  imports Main "HOL-Library.Word" "HOL-Library.Sublist"
begin

unbundle bit_operations_syntax

section \<open>Machine integers\<close>

text \<open>
  Go's \<open>int64\<close> (and \<open>time.Duration\<close>, an \<open>int64\<close> of nanoseconds) and \<open>uint\<close> on a
  64-bit platform are 64-bit words: \<open>+\<close>, \<open>-\<close> and \<open>*\<close> wrap, \<open>sint\<close> reads the signed value,
  \<open><s\<close> and \<open>\<le>s\<close> are the signed comparisons. Go's \<open>int\<close> is used only for retry counts
  and HTTP status codes, which stay far from its bounds, and is modelled as \<open>int\<close>.
\<close>

type_synonym int64 = "64 word"
type_synonym uint = "64 word"
type_synonym byte = "8 word"

section \<open>Errors\<close>

text \<open>
  The error values the program builds or receives. \<open>Fundamental f args\<close> is what
  \<open>errors.New\<close> and \<open>errors.Errorf\<close> of pkg/errors return (the format and its arguments,
  which determine the text); \<open>WithMessage\<close> is \<open>errors.WithMessage\<close>; \<open>FlagsError\<close> is
  go-flags' \<open>*flags.Error\<close> with its \<open>Type\<close>; \<open>ExpectedError\<close> is the program's own wrapper;
  \<open>UrlError tmp txt\<close> is a \<open>*url.Error\<close> with what \<open>Temporary()\<close> and \<open>Err.Error()\<close> say.
\<close>

datatype flags_error_type = ErrUnknown | ErrHelp | ErrOtherType nat

datatype fmt_arg = S string | I int64

datatype error =
    FlagsError flags_error_type
  | ExpectedError error
  | Fundamental string "fmt_arg list"
  | WithMessage error string
  | ContextCanceled
  | DeadlineExceeded
  | EOF
  | UrlError bool string
  | OtherError string

text \<open>\<open>errors.WithMessage(err, msg)\<close> is nil when \<open>err\<close> is nil.\<close>

definition WithMessage_nil :: "error option \<Rightarrow> string \<Rightarrow> error option" where
  "WithMessage_nil err m = (case err of None \<Rightarrow> None | Some e \<Rightarrow> Some (WithMessage e m))"

text \<open>
  \<open>errors.Cause\<close> unwraps while the error has a \<open>Cause()\<close> method: of the values above only
  \<open>WithMessage\<close> has one (\<open>ExpectedError\<close> only defines \<open>Error()\<close>).
\<close>

fun Cause :: "error \<Rightarrow> error" where
  "Cause (WithMessage e m) = Cause e"
| "Cause e = e"

definition ErrGiveUp :: error where
  "ErrGiveUp = Fundamental ''give up!'' []"

definition ErrNilBody :: error where
  "ErrNilBody = Fundamental ''nil body'' []"

subsection \<open>Panics\<close>

text \<open>
  A call returns, or it panics (a run-time panic of Go, with its message). Nothing in the
  program recovers from a panic, so a panic ends the process.
\<close>

datatype 'a outcome = Returns 'a | Panics string

subsection \<open>Cmd.Exit\<close>

text \<open>
  What \<open>Exit\<close> reads of its receiver: \<open>cmd.options.Debug\<close>, which \<open>Run\<close> does not change
  once the arguments are parsed, and whether \<open>cmd.dlogger\<close> is set (\<open>Run\<close> creates the
  loggers only after the password prompt).
\<close>

record Cmd =
  cmd_Debug :: bool
  cmd_dlogger :: bool

text \<open>
  The exit code. For a go-flags error nothing is logged. For every other error the message
  goes to \<open>cmd.Err\<close> or, with \<open>Debug\<close> set, to the debug logger: \<open>Printf\<close> on a nil
  \<open>*log.Logger\<close> dereferences nil and panics.
\<close>

definition Exit :: "Cmd \<Rightarrow> error option \<Rightarrow> int outcome" where
  "Exit cmd err =
     (case err of
        None \<Rightarrow> Returns 0
      | Some e \<Rightarrow>
          (case Cause e of
             FlagsError t \<Rightarrow> if t = ErrHelp then Returns 0 else Returns 2
           | ExpectedError _ \<Rightarrow>
               if cmd_Debug cmd \<and> \<not> cmd_dlogger cmd
               then Panics ''invalid memory address or nil pointer dereference''
               else Returns 1
           | _ \<Rightarrow>
               if cmd_Debug cmd \<and> \<not> cmd_dlogger cmd
               then Panics ''invalid memory address or nil pointer dereference''
               else Returns 3))"

section \<open>Data model\<close>

text \<open>
  A Go map is nil or holds entries: \<open>None\<close> is the nil map, which reads as an empty map and
  panics on an assignment to an entry; \<open>Some\<close> is a map with its entries. The \<open>HeaderMap\<close>
  of a session read from a state file is nil when the file has no such field or has
  \<open>null\<close> there.
\<close>

type_synonym header_map = "((string \<times> string) list) option"

record Part =
  FileName :: string
  Start :: int64
  Stop :: int64
  Written :: int64
  Skip :: bool
  Elapsed :: int64
  name :: string
  order :: int
  maxTry :: int
  curTry :: "32 word"
  quiet :: bool

record Session =
  Location :: string
  SuggestedFileName :: string
  ContentMD5 :: string
  AcceptRanges :: string
  ContentType :: string
  StatusCode :: int
  ContentLength :: int64
  HeaderMap :: header_map
  Parts :: "Part list"

text \<open>
  The command-line options. The fields carry the prefix \<open>opt_\<close> because \<open>Parts\<close> and
  \<open>HeaderMap\<close> are fields of \<open>Session\<close> too.
\<close>

record Options =
  opt_Parts :: uint
  opt_MaxRetry :: uint
  opt_Timeout :: uint
  opt_OutFileName :: string
  opt_JSONFileName :: string
  opt_UserAgent :: string
  opt_BestMirror :: bool
  opt_Quiet :: bool
  opt_AuthUser :: string
  opt_AuthPass :: string
  opt_HeaderMap :: header_map
  opt_Debug :: bool
  opt_Version :: bool

text \<open>
  A response body as the reader delivers it: segments of bytes, each ended by the error the
  reader reports after them (\<open>EOF\<close>, a \<open>UrlError\<close>, ...). An exhausted list reads as \<open>EOF\<close>.
\<close>

type_synonym body = "(byte list \<times> error) list"

record response =
  resp_StatusCode :: int
  resp_Status :: string
  resp_ContentLength :: int64
  resp_Header :: "(string \<times> string) list"
  resp_Location :: "error + string"
  resp_Body :: "body option"
  resp_Close :: "error option"

definition Header_Get :: "(string \<times> string) list \<Rightarrow> string \<Rightarrow> string" where
  "Header_Get h k = (case map_of h k of None \<Rightarrow> [] | Some v \<Rightarrow> v)"

section \<open>Part\<close>

definition bufSize :: nat where
  "bufSize = 2 ^ 12"

definition isDone :: "Part \<Rightarrow> bool" where
  "isDone p = (Skip p \<or> Stop p - Start p <s Written p)"

text \<open>The \<open>Range\<close> header of \<open>getRange\<close>, with the two numbers kept as numbers.\<close>

datatype range_header = BytesFrom0 | Bytes int64 int64

definition getRange :: "Part \<Rightarrow> range_header" where
  "getRange p = (if Stop p \<le>s 0 then BytesFrom0 else Bytes (Start p + Written p) (Stop p))"

subsection \<open>The per-attempt deadline\<close>

text \<open>
  \<open>ctxTimeout\<close> in nanoseconds, as the retry callback computes it from the option
  \<open>timeout\<close> (a \<open>uint\<close>) and the retry count: \<open>1<<uint(count-1)\<close> and the product with
  \<open>timeout\<close> are \<open>uint\<close> arithmetic, the conversion to \<open>time.Duration\<close> keeps the bits, the
  product with \<open>time.Second\<close> is \<open>int64\<close> arithmetic, and the comparison with the bound of
  ten minutes is signed.
\<close>

definition Second :: int64 where
  "Second = 1000000000"

definition bound :: int64 where
  "bound = 10 * (60 * Second)"

definition ctxTimeout :: "uint \<Rightarrow> int \<Rightarrow> int64" where
  "ctxTimeout timeout count =
     (if count > 0 then
        (let t = (push_bit (nat (count - 1)) 1 * timeout) * Second
         in if bound <s t then bound else t)
      else timeout * Second)"

subsection \<open>The state of one worker\<close>

text \<open>
  What \<open>Part.download\<close> reads and writes: the part itself, the local \<open>total\<close>, the bytes of
  the segment file as the handle \<open>fpart\<close> leaves them, how often the file was opened and
  whether it was removed, the requests issued (by their \<open>Range\<close> header), the deadlines
  armed, and the messages flashed through the message gate.
\<close>

record message =
  msg :: string
  final :: bool

record worker =
  part :: Part
  total_w :: int64
  fpart :: "byte list"
  opens :: nat
  removed :: bool
  requests :: "range_header list"
  deadlines :: "int64 list"
  flashed :: "message list"

text \<open>
  What the outside world does during one attempt: the result of \<open>client.Do\<close>, what
  \<open>timer.Reset\<close> returns before each buffer fill (an exhausted list reads as a timer that
  has fired), and \<open>time.Since(now)\<close> when the attempt returns.
\<close>

record attempt_env =
  do_result :: "error + response"
  timer_active :: "bool list"
  since :: int64

text \<open>
  \<open>mg.flash\<close>, as called by the worker itself; the message \<open>Timeout...\<close> that the timer's
  function flashes from its own goroutine is left out.
\<close>

definition flash :: "string \<Rightarrow> bool \<Rightarrow> worker \<Rightarrow> worker" where
  "flash m f w = w\<lparr>flashed := flashed w @ [\<lparr>msg = m, final = f\<rparr>]\<rparr>"

text \<open>
  \<open>io.CopyN(buf, body, max)\<close>: the bytes read, the error, and the rest of the body. The
  error is nil exactly when \<open>max\<close> bytes were read; with \<open>max = 0\<close> nothing is read.
\<close>

definition CopyN :: "body \<Rightarrow> nat \<Rightarrow> byte list \<times> error option \<times> body" where
  "CopyN b n =
     (if n = 0 then ([], None, b)
      else case b of
        [] \<Rightarrow> ([], Some EOF, [])
      | (d, e) # rest \<Rightarrow>
          if n \<le> length d then (take n d, None, (drop n d, e) # rest)
          else (d, Some e, rest))"

text \<open>
  \<open>n, _ = io.Copy(fpart, buf); p.Written += n\<close>: the file is open in append mode, so the
  buffer goes to its end. The write error is discarded by the source; the model takes the
  file system to accept the whole buffer.
\<close>

definition Copy_fpart :: "byte list \<Rightarrow> worker \<Rightarrow> worker" where
  "Copy_fpart buf w =
     w\<lparr>fpart := fpart w @ buf,
       part := (part w)\<lparr>Written := Written (part w) + of_nat (length buf)\<rparr>\<rparr>"

text \<open>
  The loop \<open>for timer.Reset(ctxTimeout) { ... }\<close>, with the variables \<open>max\<close>, \<open>buf\<close> and
  \<open>err\<close> it shares with the code after it.
\<close>

fun stream ::
  "bool list \<Rightarrow> body \<Rightarrow> nat \<Rightarrow> byte list \<Rightarrow> error option \<Rightarrow> worker
     \<Rightarrow> error option \<times> byte list \<times> worker" where
  "stream [] b mx buf err w = (err, buf, w)"
| "stream (active # ts) b mx buf err w =
     (if \<not> active then (err, buf, w)
      else
        (case CopyN b mx of
           (d, Some (UrlError tmp txt), b') \<Rightarrow>
             (if tmp
              then stream ts b' (mx - length d) (buf @ d) (Some (UrlError tmp txt))
                     (flash (take 30 txt @ ''..'') False w)
              else (Some (UrlError tmp txt), buf @ d, flash (take 30 txt @ ''..'') False w))
         | (d, Some e, b') \<Rightarrow> (Some e, buf @ d, w)
         | (d, None, b') \<Rightarrow> stream ts b' bufSize [] None (Copy_fpart (buf @ d) w)))"

text \<open>The code after the loop, up to the callback's return.\<close>

definition finish :: "error option \<times> byte list \<times> worker \<Rightarrow> (bool \<times> error option) \<times> worker" where
  "finish r =
     (case r of (err, buf, w) \<Rightarrow>
        (let w1 = Copy_fpart buf w;
             w2 = (if total_w w1 \<le>s 0
                   then w1\<lparr>part := (part w1)\<lparr>Stop := Written (part w1) - 1\<rparr>\<rparr>
                   else w1)
         in if err = Some EOF then ((False, None), w2)
            else ((\<not> isDone (part w2), err), w2)))"

text \<open>
  The \<open>switch resp.StatusCode\<close>: either the callback returns (\<open>Some\<close> of its result) or it
  goes on to the body (\<open>None\<close>).
\<close>

definition on_status :: "response \<Rightarrow> worker \<Rightarrow> (bool \<times> error option) option \<times> worker" where
  "on_status resp w =
     (if resp_StatusCode resp = 200 then
        (if order (part w) \<noteq> 0
         then (Some (False, None), w\<lparr>part := (part w)\<lparr>Skip := True\<rparr>\<rparr>)
         else (None,
               w\<lparr>total_w := resp_ContentLength resp,
                 part := (part w)\<lparr>Stop := resp_ContentLength resp - 1, Written := 0\<rparr>\<rparr>))
      else
        (let w' = (if resp_StatusCode resp = 403 \<or> resp_StatusCode resp = 429
                   then flash (resp_Status resp) True w else w)
         in if resp_StatusCode resp \<noteq> 206
            then (Some (False, Some (Fundamental ''unexpected status: %s'' [S (resp_Status resp)])), w')
            else (None, w')))"

text \<open>
  The callback from the request on. \<open>issue\<close> is the state in which \<open>client.Do\<close> is called:
  the \<open>Range\<close> header is set, the deadline \<open>ctxTimeout\<close> is armed and, on a retry, the try
  counter is stored and \<open>Retrying...\<close> is flashed. Then come \<open>client.Do\<close>, the status switch
  and the body. The progress bar and the debug log are left out.
\<close>

definition issue :: "uint \<Rightarrow> int \<Rightarrow> worker \<Rightarrow> worker" where
  "issue timeout count w =
     (let w1 = w\<lparr>requests := requests w @ [getRange (part w)],
                 deadlines := deadlines w @ [ctxTimeout timeout count]\<rparr>
      in if count > 0
         then flash ''Retrying...'' False (w1\<lparr>part := (part w1)\<lparr>curTry := of_int count\<rparr>\<rparr>)
         else w1)"

definition request :: "uint \<Rightarrow> attempt_env \<Rightarrow> int \<Rightarrow> worker \<Rightarrow> (bool \<times> error option) \<times> worker" where
  "request timeout env count w =
     (case do_result env of
        Inl e \<Rightarrow> ((True, Some e), issue timeout count w)
      | Inr resp \<Rightarrow>
          (case on_status resp (issue timeout count w) of
             (Some r, w3) \<Rightarrow> (r, w3)
           | (None, w3) \<Rightarrow>
               (case resp_Body resp of
                  None \<Rightarrow> ((False, Some ErrNilBody), w3)
                | Some b \<Rightarrow> finish (stream (timer_active env) b bufSize [] None w3))))"

text \<open>\<open>defer func() { p.Elapsed += time.Since(now) }()\<close>\<close>

definition add_elapsed :: "int64 \<Rightarrow> (bool \<times> error option) \<times> worker \<Rightarrow> (bool \<times> error option) \<times> worker" where
  "add_elapsed d r =
     (case r of (res, w) \<Rightarrow> (res, w\<lparr>part := (part w)\<lparr>Elapsed := Elapsed (part w) + d\<rparr>\<rparr>))"

text \<open>The retry callback \<open>func(count int, now time.Time) (retry bool, err error)\<close>.\<close>

definition attempt :: "uint \<Rightarrow> attempt_env \<Rightarrow> int \<Rightarrow> worker \<Rightarrow> (bool \<times> error option) \<times> worker" where
  "attempt timeout env count w =
     (if count > maxTry (part w) then ((False, Some ErrGiveUp), w)
      else if isDone (part w) then ((False, None), w)
      else add_elapsed (since env) (request timeout env count w))"

subsection \<open>The retry loop\<close>

text \<open>
  Modelled from the spec: \<open>backoff.Retry\<close> of the module github.com/vbauerster/backoff,
  which is not among the sources. The spec's words: the retry function returns a
  (retry?, error) pair; the loop calls it with the retry count, starting at 0 and one
  higher after each backoff wait; it ends with the function's error when the function says
  not to retry, and with the cancellation cause when the shared token is cancelled.
  \<open>canceled count\<close> says whether the token is cancelled during the wait after the
  attempt \<open>count\<close>. The waiting itself (50 ms base delay, at most a minute) is left out.
  Not returning is the value \<open>None\<close>.
\<close>

partial_function (option) Retry ::
  "(int \<Rightarrow> bool) \<Rightarrow> (int \<Rightarrow> 's \<Rightarrow> (bool \<times> error option) \<times> 's) \<Rightarrow> int \<Rightarrow> 's
     \<Rightarrow> (error option \<times> 's) option" where
  "Retry canceled fn count s =
     (case fn count s of
        ((retry, err), s') \<Rightarrow>
          if \<not> retry then Some (err, s')
          else if canceled count then Some (Some ContextCanceled, s')
          else Retry canceled fn (count + 1) s')"

text \<open>
  Modelled from the spec, as \<open>Retry\<close> is: the calls of the retry function that the loop
  makes. The first call (\<open>n = 0\<close>) has the count and the state the loop starts with; the
  next call comes, with the count one higher and the state as the call before left it,
  when the call before asked for a retry and the token was not cancelled during the wait.
  \<open>calls canceled fn count s n\<close> is the count and the state of call \<open>n\<close>, or \<open>None\<close> when
  the loop has ended before.
\<close>

fun calls ::
  "(int \<Rightarrow> bool) \<Rightarrow> (int \<Rightarrow> 's \<Rightarrow> (bool \<times> error option) \<times> 's) \<Rightarrow> int \<Rightarrow> 's \<Rightarrow> nat
     \<Rightarrow> (int \<times> 's) option" where
  "calls canceled fn count s 0 = Some (count, s)"
| "calls canceled fn count s (Suc n) =
     (case fn count s of
        ((retry, err), s') \<Rightarrow>
          if retry \<and> \<not> canceled count then calls canceled fn (count + 1) s' n else None)"

subsection \<open>Part.download\<close>

text \<open>
  What the outside world does during one download: whether \<open>os.OpenFile\<close> fails, the
  content of the segment file when it is opened (empty when the file is created), the
  attempts by retry count, and the cancellation of the shared token.
\<close>

record download_env =
  open_error :: "error option"
  existing :: "byte list"
  attempts :: "int \<Rightarrow> attempt_env"
  canceled :: "int \<Rightarrow> bool"

definition opened :: "download_env \<Rightarrow> Part \<Rightarrow> worker" where
  "opened env p =
     \<lparr>part = p, total_w = Stop p - Start p + 1, fpart = existing env, opens = 1,
      removed = False, requests = [], deadlines = [], flashed = []\<rparr>"

definition not_opened :: "download_env \<Rightarrow> Part \<Rightarrow> worker" where
  "not_opened env p = (opened env p)\<lparr>opens := 0\<rparr>"

text \<open>
  The deferred calls run after the retry loop: the file is closed and, when \<open>Skip\<close> is
  set, removed; a non-nil error gets the part's name as message. When the file cannot be
  opened the function returns before anything else happens.
\<close>

definition download :: "download_env \<Rightarrow> uint \<Rightarrow> Part \<Rightarrow> (error option \<times> worker) option" where
  "download env timeout p =
     (case open_error env of
        Some e \<Rightarrow> Some (Some (WithMessage e (name p)), not_opened env p)
      | None \<Rightarrow>
          (case Retry (canceled env) (\<lambda>count. attempt timeout (attempts env count) count) 0 (opened env p) of
             None \<Rightarrow> None
           | Some (err, w) \<Rightarrow>
               (let w1 = (if err = Some ErrGiveUp then flash ''give up!'' True w else w)
                in Some (WithMessage_nil err (name p), w1\<lparr>removed := Skip (part w1)\<rparr>))))"

section \<open>Resolver\<close>

definition maxRedirects :: nat where
  "maxRedirects = 10"

definition isRedirect :: "int \<Rightarrow> bool" where
  "isRedirect status = (status > 299 \<and> status < 400)"

text \<open>
  What the outside world does during one run of the command. For the resolver:
  whether \<open>http.NewRequest\<close> fails on a URL, the result of \<open>client.Do\<close> in the \<open>i\<close>-th
  iteration, and the file name \<open>parseContentDisposition\<close> or the URL's base name give. For
  the orchestrator: the argument parser (the options as it leaves them, and its error or
  the remaining arguments), the password prompt, \<open>loadState\<close>, \<open>cookiejar.New\<close>,
  \<open>os.Stat\<close>, \<open>fmt.Scanf\<close>, \<open>removeFiles\<close>, each worker (its error and the part as it
  leaves it), which of the workers' errors is the first to reach \<open>eg.Wait()\<close>,
  \<open>concatenateParts\<close>, \<open>os.Remove\<close> and \<open>saveState\<close>, and whether the context is
  cancelled when \<open>follow\<close> has failed and when the workers have joined.

  For the choice of the best mirror:
  \<^item> \<open>scanner\<close>: the lines that the \<open>bufio.Scanner\<close> on the input yields, and its \<open>Err()\<close>;
  \<^item> \<open>fetched\<close>: the results of \<open>client.Do\<close> of the goroutines, each with the position of its
    URL in the list, in the order in which the goroutines get them, up to the moment the
    \<open>select\<close> of \<open>bestMirror\<close> takes a case;
  \<^item> \<open>ctx_end\<close>: the error the context ends with, \<open>DeadlineExceeded\<close> when its 15 seconds
    are over, \<open>ContextCanceled\<close> when the user interrupts before;
  \<^item> \<open>ended_before_select\<close>, \<open>ended_before_return\<close>: whether the context has ended when
    the \<open>select\<close> takes a case although a URL is in the channel, and when \<open>ctx.Err()\<close> is
    read for the return;
  \<^item> \<open>select_takes_done\<close>: the case the \<open>select\<close> takes when both are ready.
\<close>

record world =
  parse_args :: "Options \<times> (error + string list)"
  read_password :: "error + string"
  load_state :: "string \<Rightarrow> error + Session"
  scanner :: "string list \<times> error option"
  fetched :: "(nat \<times> (error + response)) list"
  ctx_end :: error
  ended_before_select :: bool
  select_takes_done :: bool
  ended_before_return :: bool
  jar_new :: "error option"
  new_request :: "string \<Rightarrow> error option"
  client_do :: "nat \<Rightarrow> string \<Rightarrow> error + response"
  derived_name :: "response \<Rightarrow> string \<Rightarrow> string"
  follow_canceled :: bool
  stat_exists :: "string \<Rightarrow> bool"
  scanf :: "error + string"
  remove_files :: "error option"
  run_worker :: "nat \<Rightarrow> Part \<Rightarrow> error option \<times> Part"
  wait_first :: nat
  wait_canceled :: bool
  concatenate :: "error option"
  os_remove :: "error option"
  save_state :: "error option"

text \<open>
  The loop \<open>for i := 0; i < maxRedirects; i++\<close> of \<open>follow\<close>, with the named results
  \<open>session\<close> and \<open>err\<close> and the flag \<open>redirected\<close>. \<open>out\<close> is \<open>cmd.options.OutFileName\<close>.
  The cookies and the log are left out.
\<close>

function follow_loop ::
  "world \<Rightarrow> string \<Rightarrow> nat \<Rightarrow> string \<Rightarrow> bool \<Rightarrow> Session option \<times> error option \<times> bool" where
  "follow_loop wd out i userUrl redirected =
     (if i < maxRedirects then
        (case new_request wd userUrl of
           Some e \<Rightarrow> (None, Some e, redirected)
         | None \<Rightarrow>
             (case client_do wd i userUrl of
                Inl e \<Rightarrow> (None, Some e, redirected)
              | Inr resp \<Rightarrow>
                  if isRedirect (resp_StatusCode resp) then
                    (case resp_Location resp of
                       Inl e \<Rightarrow> (None, Some e, True)
                     | Inr loc \<Rightarrow> follow_loop wd out (i + 1) loc True)
                  else if resp_StatusCode resp \<noteq> 200 then
                    (None, Some (Fundamental ''unexpected status: %s'' [S (resp_Status resp)]),
                     redirected)
                  else
                    (Some \<lparr>Location = userUrl,
                           SuggestedFileName =
                             (if out = [] then derived_name wd resp userUrl else out),
                           ContentMD5 = Header_Get (resp_Header resp) ''Content-MD5'',
                           AcceptRanges = Header_Get (resp_Header resp) ''Accept-Ranges'',
                           ContentType = Header_Get (resp_Header resp) ''Content-Type'',
                           StatusCode = resp_StatusCode resp,
                           ContentLength = resp_ContentLength resp,
                           HeaderMap = None, Parts = []\<rparr>,
                     resp_Close resp, redirected)))
      else (None, None, redirected))"
  by pat_completeness auto
termination
  by (relation "measure (\<lambda>(wd, out, i, userUrl, redirected). maxRedirects - i)") auto

text \<open>\<open>follow\<close>: the loop, then the deferred function.\<close>

definition follow :: "world \<Rightarrow> string \<Rightarrow> string \<Rightarrow> Session option \<times> error option" where
  "follow wd out userUrl =
     (case follow_loop wd out 0 userUrl False of
        (session, err, redirected) \<Rightarrow>
          (session,
           WithMessage_nil
             (if redirected \<and> session = None \<and> err = None
              then Some (ExpectedError
                     (Fundamental ''maximum number of redirects (%d) followed'' [I 10]))
              else err)
             ''follow''))"

section \<open>Best mirror\<close>

subsection \<open>readLines\<close>

text \<open>
  \<open>strings.TrimSpace\<close> of the standard library, on the bytes of a string: it removes the
  leading and the trailing white space characters, as Unicode defines them
  (\<open>unicode.IsSpace\<close>). These are tab, line feed, vertical tab, form feed, carriage return
  and space, and U+0085, U+00A0, U+1680, U+2000 to U+200A, U+2028, U+2029, U+202F, U+205F
  and U+3000; \<open>spaces\<close> lists their UTF-8 encodings. \<open>strip ps s\<close> removes from the front
  of \<open>s\<close> one element of \<open>ps\<close> after the other, as long as one is there (the empty string,
  which is not among \<open>spaces\<close>, does not count).
\<close>

definition spaces :: "string list" where
  "spaces =
     [[CHR 0x09], [CHR 0x0A], [CHR 0x0B], [CHR 0x0C], [CHR 0x0D], [CHR 0x20],
      [CHR 0xC2, CHR 0x85], [CHR 0xC2, CHR 0xA0], [CHR 0xE1, CHR 0x9A, CHR 0x80],
      [CHR 0xE2, CHR 0x80, CHR 0x80], [CHR 0xE2, CHR 0x80, CHR 0x81],
      [CHR 0xE2, CHR 0x80, CHR 0x82], [CHR 0xE2, CHR 0x80, CHR 0x83],
      [CHR 0xE2, CHR 0x80, CHR 0x84], [CHR 0xE2, CHR 0x80, CHR 0x85],
      [CHR 0xE2, CHR 0x80, CHR 0x86], [CHR 0xE2, CHR 0x80, CHR 0x87],
      [CHR 0xE2, CHR 0x80, CHR 0x88], [CHR 0xE2, CHR 0x80, CHR 0x89],
      [CHR 0xE2, CHR 0x80, CHR 0x8A], [CHR 0xE2, CHR 0x80, CHR 0xA8],
      [CHR 0xE2, CHR 0x80, CHR 0xA9], [CHR 0xE2, CHR 0x80, CHR 0xAF],
      [CHR 0xE2, CHR 0x81, CHR 0x9F], [CHR 0xE3, CHR 0x80, CHR 0x80]]"

function strip :: "string list \<Rightarrow> string \<Rightarrow> string" where
  "strip ps s =
     (case find (\<lambda>r. r \<noteq> [] \<and> prefix r s) ps of
        None \<Rightarrow> s
      | Some r \<Rightarrow> strip ps (drop (length r) s))"
  by pat_completeness auto
termination
  by (relation "measure (\<lambda>(ps, s). length s)") (auto simp: find_Some_iff prefix_def)

definition TrimSpace :: "string \<Rightarrow> string" where
  "TrimSpace s = rev (strip (map rev spaces) (rev (strip spaces s)))"

text \<open>
  \<open>readLines\<close>, on what the scanner yields: the loop over the lines (\<open>lines\<close> is the slice
  built so far), then \<open>return lines, scanner.Err()\<close>. \<open>strings.HasPrefix(text, "#")\<close> is
  \<open>prefix ''#'' text\<close>.
\<close>

fun readLines_loop :: "string list \<Rightarrow> string list \<Rightarrow> string list" where
  "readLines_loop [] lines = lines"
| "readLines_loop (l # ls) lines =
     (let text = TrimSpace l
      in if length text = 0 \<or> prefix ''#'' text then readLines_loop ls lines
         else readLines_loop ls (lines @ [text]))"

definition readLines :: "string list \<times> error option \<Rightarrow> string list \<times> error option" where
  "readLines r = (readLines_loop (fst r) [], snd r)"

subsection \<open>bestMirror\<close>

text \<open>
  The loop over the URLs: a URL whose request cannot be built is skipped, every other one
  gets a goroutine. \<open>subscribers\<close> are the goroutines, by the position of their URL.
\<close>

definition subscribers :: "world \<Rightarrow> string list \<Rightarrow> (nat \<times> string) list" where
  "subscribers wd urls =
     filter (\<lambda>(i, u). new_request wd u = None) (zip [0..<length urls] urls)"

text \<open>
  What a goroutine does with the result of its \<open>client.Do\<close>: nothing when there is an
  error, no body, or a status other than 200; else it sends its URL on the channel \<open>first\<close>
  unless the channel, which holds one value, is full. (A response that \<open>client.Do\<close>
  returns together with an error is that of a redirect, so its status is not 200.)
\<close>

definition fetch :: "string \<Rightarrow> error + response \<Rightarrow> string option \<Rightarrow> string option" where
  "fetch u r first =
     (case r of
        Inl e \<Rightarrow> first
      | Inr resp \<Rightarrow>
          if resp_Body resp = None then first
          else if resp_StatusCode resp \<noteq> 200 then first
          else (case first of None \<Rightarrow> Some u | Some v \<Rightarrow> Some v))"

text \<open>The channel \<open>first\<close> after the goroutines have got their results, in their order.\<close>

fun arrive ::
  "(nat \<times> string) list \<Rightarrow> (nat \<times> (error + response)) list \<Rightarrow> string option \<Rightarrow> string option" where
  "arrive subs [] first = first"
| "arrive subs ((i, r) # rest) first =
     (case map_of subs i of
        None \<Rightarrow> arrive subs rest first
      | Some u \<Rightarrow> arrive subs rest (fetch u r first))"

text \<open>
  \<open>bestMirror\<close>. With an empty channel the \<open>select\<close> waits for the end of the context,
  which comes after 15 seconds at the latest. With a URL in the channel it takes the URL,
  unless the context has ended too and the \<open>select\<close> takes that case. The error is
  \<open>ctx.Err()\<close> at the return, with the message \<open>bestMirror\<close> added by the deferred
  function. The log is left out.
\<close>

definition bestMirror :: "world \<Rightarrow> string \<times> error option" where
  "bestMirror wd =
     (case readLines (scanner wd) of
        (urls, Some e) \<Rightarrow> ([], Some (WithMessage e ''bestMirror''))
      | (urls, None) \<Rightarrow>
          (case arrive (subscribers wd urls) (fetched wd) None of
             None \<Rightarrow> ([], Some (WithMessage (ctx_end wd) ''bestMirror''))
           | Some u \<Rightarrow>
               if ended_before_select wd \<and> select_takes_done wd
               then ([], Some (WithMessage (ctx_end wd) ''bestMirror''))
               else (u, WithMessage_nil
                          (if ended_before_select wd \<or> ended_before_return wd
                           then Some (ctx_end wd) else None)
                          ''bestMirror'')))"



section \<open>Orchestrator\<close>

text \<open>
  The functions of \<open>Session\<close> that \<open>Run\<close> calls and whose source is not among the files:
  \<open>isAcceptRanges\<close>, \<open>calcParts\<close>, \<open>actualPartsOnly\<close> and \<open>totalWritten\<close> are parameters
  of the model; \<open>loadState\<close>, \<open>removeFiles\<close>, \<open>concatenateParts\<close> and \<open>saveState\<close> act on
  the file system, so their results come from the world and their calls are events.
\<close>

record session_ops =
  isAcceptRanges :: "Session \<Rightarrow> bool"
  calcParts :: "Session \<Rightarrow> int64 \<Rightarrow> Part list"
  actualPartsOnly :: "Session \<Rightarrow> Session"
  totalWritten :: "Session \<Rightarrow> int64"

text \<open>
  What a run does to the files: the calls that create, change or delete a part file, the
  output file or a state file. \<open>StartWorker i\<close> is \<open>eg.Go\<close> of the download of part \<open>i\<close>,
  which opens (and creates) the part's file.
\<close>

datatype event =
    RemoveFiles
  | StartWorker nat
  | ConcatenateParts
  | Remove string
  | SaveState string Session

definition userAgents :: "string \<Rightarrow> string" where
  "userAgents k =
     (if k = ''chrome'' then ''Mozilla/5.0 (Macintosh; Intel Mac OS X 10_13_4) AppleWebKit/537.36 (KHTML, like Gecko) Chrome/65.0.3325.181 Safari/537.36''
      else if k = ''firefox'' then ''Mozilla/5.0 (Macintosh; Intel Mac OS X 10.13; rv:59.0) Gecko/20100101 Firefox/59.0''
      else if k = ''safari'' then ''Mozilla/5.0 (Macintosh; Intel Mac OS X 10_13_4) AppleWebKit/605.1.15 (KHTML, like Gecko) Version/11.1 Safari/605.1.15''
      else [])"

definition ToLower :: "string \<Rightarrow> string" where
  "ToLower s =
     map (\<lambda>c. if 65 \<le> (of_char c :: nat) \<and> (of_char c :: nat) \<le> 90
               then char_of (of_char c + 32 :: nat) else c) s"

fun decimal :: "nat \<Rightarrow> string" where
  "decimal n =
     (if n < 10 then [char_of (48 + n)] else decimal (n div 10) @ [char_of (48 + n mod 10)])"

text \<open>
  The \<open>switch\<close> that finds the URL: resume, best mirror, or the first argument. \<open>args[0]\<close>
  panics on an empty list; \<open>Run\<close> has returned before when there is no argument, no state
  file and no mirror list, so that branch is never taken with an empty list. The files
  named by the arguments, or the standard input, are what \<open>scanner\<close> reads.
\<close>

definition entry ::
  "world \<Rightarrow> string list \<Rightarrow> Options
     \<Rightarrow> (error + (string \<times> Session option \<times> Options)) outcome" where
  "entry wd args opts =
     (if opt_JSONFileName opts \<noteq> [] then
        (case load_state wd (opt_JSONFileName opts) of
           Inl e \<Rightarrow> Returns (Inl e)
         | Inr lastSession \<Rightarrow>
             Returns (Inr (Location lastSession, Some lastSession,
                  opts\<lparr>opt_HeaderMap := HeaderMap lastSession,
                       opt_OutFileName := SuggestedFileName lastSession\<rparr>)))
      else if opt_BestMirror opts then
        (case bestMirror wd of
           (best, Some e) \<Rightarrow> Returns (Inl e)
         | (best, None) \<Rightarrow> Returns (Inr (best, None, opts)))
      else
        (case args of
           [] \<Rightarrow> Panics ''index out of range''
         | a # _ \<Rightarrow> Returns (Inr (a, None, opts))))"

text \<open>
  The default for the header \<open>User-Agent\<close>: the lookup reads a nil map as empty, the
  assignment that follows panics on it.
\<close>

definition ensure_user_agent :: "Options \<Rightarrow> Options outcome" where
  "ensure_user_agent opts =
     (case opt_HeaderMap opts of
        None \<Rightarrow> Panics ''assignment to entry in nil map''
      | Some h \<Rightarrow>
          Returns
            (if map_of h ''User-Agent'' = None
             then opts\<lparr>opt_HeaderMap :=
                         Some ((''User-Agent'', userAgents (opt_UserAgent opts)) # h)\<rparr>
             else opts))"

text \<open>
  The loop that starts the workers, and \<open>eg.Wait()\<close>. Each part that is not done gets its
  private fields and a worker; the parts are pointers, so the session holds each part as
  its worker leaves it. \<open>int(cmd.options.MaxRetry)\<close> keeps the bits. Of the workers'
  errors \<open>Wait\<close> returns the one that arrives first: which one that is, among those that
  are not nil, the world says. \<open>http.NewRequest\<close> on \<open>session.Location\<close> does not fail
  here, since \<open>follow\<close> has built a request from the same string, so the call of \<open>Fatalf\<close>
  is left out.
\<close>

fun start_workers ::
  "world \<Rightarrow> Options \<Rightarrow> nat \<Rightarrow> Part list \<Rightarrow> Part list \<times> error option list \<times> event list" where
  "start_workers wd opts i [] = ([], [], [])"
| "start_workers wd opts i (p # ps) =
     (case start_workers wd opts (i + 1) ps of
        (ps', errs, evs) \<Rightarrow>
          if isDone p then (p # ps', errs, evs)
          else
            (case run_worker wd i
                    (p\<lparr>order := int i, maxTry := sint (opt_MaxRetry opts),
                       quiet := opt_Quiet opts,
                       name := ''P'' @ (if i + 1 < 10 then ''0'' else []) @ decimal (i + 1)\<rparr>) of
               (err, p') \<Rightarrow> (p' # ps', err # errs, StartWorker i # evs)))"

definition Wait :: "world \<Rightarrow> error option list \<Rightarrow> error option" where
  "Wait wd errs =
     (case filter (\<lambda>e. e \<noteq> None) errs of
        [] \<Rightarrow> None
      | e # es \<Rightarrow> (e # es) ! (wait_first wd mod length (e # es)))"

text \<open>
  \<open>Run\<close> after the workers have joined: \<open>err\<close> is what \<open>eg.Wait()\<close> returned, \<open>session\<close>
  the session with the parts as the workers left them.
\<close>

definition Run_joined ::
  "session_ops \<Rightarrow> world \<Rightarrow> Options \<Rightarrow> string \<Rightarrow> Session \<Rightarrow> error option
     \<Rightarrow> error option \<times> event list" where
  "Run_joined ops wd opts userUrl session0 err0 =
     (let session = actualPartsOnly ops session0;
          cancel = (err0 \<noteq> None \<and> wait_canceled wd);
          err = (if cancel then Some (ExpectedError ContextCanceled) else err0)
      in if \<not> cancel \<and> opt_Parts opts \<noteq> 0 \<and>
            (totalWritten ops session = ContentLength session \<or> ContentLength session \<le>s 0)
         then
           (case concatenate wd of
              Some e \<Rightarrow> (Some e, [ConcatenateParts])
            | None \<Rightarrow>
                if opt_JSONFileName opts \<noteq> []
                then (os_remove wd, [ConcatenateParts, Remove (opt_JSONFileName opts)])
                else (None, [ConcatenateParts]))
         else
           (let stateName = SuggestedFileName session @ ''.json'';
                saved = SaveState stateName (session\<lparr>Location := userUrl\<rparr>)
            in case save_state wd of
                 None \<Rightarrow> (err, [saved])
               | Some e \<Rightarrow> (if err = None then Some e else err, [saved])))"

definition Run_transfer ::
  "session_ops \<Rightarrow> world \<Rightarrow> Options \<Rightarrow> string \<Rightarrow> Session \<Rightarrow> error option \<times> event list" where
  "Run_transfer ops wd opts userUrl session =
     (case start_workers wd opts 0 (Parts session) of
        (ps, errs, evs) \<Rightarrow>
          (case Run_joined ops wd opts userUrl (session\<lparr>Parts := ps\<rparr>) (Wait wd errs) of
             (err, evs') \<Rightarrow> (err, evs @ evs')))"

text \<open>
  \<open>Run\<close> once the session is resolved: the check of a resumed session against the fresh
  one, or the planning of the parts and the question about an existing output file.
\<close>

definition Run_session ::
  "session_ops \<Rightarrow> world \<Rightarrow> Options \<Rightarrow> string \<Rightarrow> Session option \<Rightarrow> Session
     \<Rightarrow> error option \<times> event list" where
  "Run_session ops wd opts userUrl resumed session =
     (case resumed of
        Some lastSession \<Rightarrow>
          if ContentMD5 lastSession \<noteq> ContentMD5 session then
            (Some (Fundamental ''ContentMD5 mismatch: remote %q expected %q''
                     [S (ContentMD5 session), S (ContentMD5 lastSession)]), [])
          else if ContentLength lastSession \<noteq> ContentLength session then
            (Some (Fundamental ''ContentLength mismatch: remote %d expected %d''
                     [I (ContentLength session), I (ContentLength lastSession)]), [])
          else Run_transfer ops wd opts userUrl (lastSession\<lparr>Location := Location session\<rparr>)
      | None \<Rightarrow>
          if opt_Parts opts \<noteq> 0 then
            (let opts' = (if \<not> isAcceptRanges ops session then opts\<lparr>opt_Parts := 1\<rparr> else opts);
                 s1 = session\<lparr>HeaderMap := opt_HeaderMap opts'\<rparr>;
                 s2 = s1\<lparr>Parts := calcParts ops s1 (opt_Parts opts')\<rparr>
             in if stat_exists wd (SuggestedFileName s2) then
                  (case scanf wd of
                     Inl e \<Rightarrow> (Some e, [])
                   | Inr answer \<Rightarrow>
                       if ToLower answer = ''y'' \<or> ToLower answer = ''yes'' then
                         (case remove_files wd of
                            Some e \<Rightarrow> (Some e, [RemoveFiles])
                          | None \<Rightarrow>
                              (case Run_transfer ops wd opts' userUrl s2 of
                                 (err, evs) \<Rightarrow> (err, RemoveFiles # evs)))
                       else (None, []))
                else Run_transfer ops wd opts' userUrl s2)
          else Run_transfer ops wd opts userUrl session)"

text \<open>
  \<open>Run\<close> from the resolution of the session on. When \<open>follow\<close> fails and the context is
  cancelled, the error is replaced by an \<open>ExpectedError\<close>. On a nil session with a nil
  error the source dereferences nil; \<open>follow\<close> never returns that (lemma \<open>follow_not_nil\<close>
  below).
\<close>

definition Run_resolve ::
  "session_ops \<Rightarrow> world \<Rightarrow> Options \<Rightarrow> string \<Rightarrow> Session option
     \<Rightarrow> (error option \<times> event list) outcome" where
  "Run_resolve ops wd opts userUrl resumed =
     (case follow wd (opt_OutFileName opts) userUrl of
        (_, Some e) \<Rightarrow>
          Returns (Some (if follow_canceled wd then ExpectedError ContextCanceled else e), [])
      | (None, None) \<Rightarrow> Panics ''invalid memory address or nil pointer dereference''
      | (Some session, None) \<Rightarrow> Returns (Run_session ops wd opts userUrl resumed session))"

text \<open>The password: asked for when a user name is given without one.\<close>

definition credentials :: "world \<Rightarrow> Options \<Rightarrow> error + string" where
  "credentials wd opts =
     (if opt_AuthUser opts \<noteq> [] \<and> opt_AuthPass opts = [] then read_password wd
      else Inr (opt_AuthPass opts))"

text \<open>
  \<open>Run\<close> up to the cookie jar: either it returns (\<open>Inl\<close> of its error and of whether the
  loggers have been created by then), or it goes on with the URL, the session to resume,
  if any, and the options. \<open>new(flags.Error)\<close> has the zero \<open>Type\<close>, \<open>ErrUnknown\<close>. The
  loggers are created after the password prompt and before the \<open>switch\<close> that finds the
  URL. Nothing here writes a file.
\<close>

definition Run_setup ::
  "world \<Rightarrow> ((error option \<times> bool) + (string \<times> Session option \<times> Options)) outcome" where
  "Run_setup wd =
     (case parse_args wd of
        (opts, Inl e) \<Rightarrow> Returns (Inl (Some e, False))
      | (opts, Inr args) \<Rightarrow>
          if opt_Version opts then Returns (Inl (None, False))
          else if args = [] \<and> opt_JSONFileName opts = [] \<and> \<not> opt_BestMirror opts
          then Returns (Inl (Some (FlagsError ErrUnknown), False))
          else
            (case credentials wd opts of
               Inl e \<Rightarrow> Returns (Inl (Some e, False))
             | Inr pass \<Rightarrow>
                 (case entry wd args (opts\<lparr>opt_AuthPass := pass\<rparr>) of
                    Panics m \<Rightarrow> Panics m
                  | Returns (Inl e) \<Rightarrow> Returns (Inl (Some e, True))
                  | Returns (Inr (userUrl, lastSession, opts1)) \<Rightarrow>
                      (case ensure_user_agent opts1 of
                         Panics m \<Rightarrow> Panics m
                       | Returns opts2 \<Rightarrow>
                           (case jar_new wd of
                              Some e \<Rightarrow> Returns (Inl (Some e, True))
                            | None \<Rightarrow> Returns (Inr (userUrl, lastSession, opts2)))))))"

text \<open>
  \<open>Run\<close>: its error, what it did to the files, and the receiver as \<open>Exit\<close> will find it.
  The deferred function adds the message \<open>run\<close>.
\<close>

definition Run :: "session_ops \<Rightarrow> world \<Rightarrow> (error option \<times> event list \<times> Cmd) outcome" where
  "Run ops wd =
     (case Run_setup wd of
        Panics m \<Rightarrow> Panics m
      | Returns (Inl (err, logged)) \<Rightarrow>
          Returns (WithMessage_nil err ''run'', [],
                   \<lparr>cmd_Debug = opt_Debug (fst (parse_args wd)), cmd_dlogger = logged\<rparr>)
      | Returns (Inr (userUrl, lastSession, opts)) \<Rightarrow>
          (case Run_resolve ops wd opts userUrl lastSession of
             Panics m \<Rightarrow> Panics m
           | Returns (err, evs) \<Rightarrow>
               Returns (WithMessage_nil err ''run'', evs,
                        \<lparr>cmd_Debug = opt_Debug (fst (parse_args wd)), cmd_dlogger = True\<rparr>)))"

text \<open>
  \<open>main\<close>: \<open>os.Exit(cmd.Exit(cmd.Run(...)))\<close>, the exit code of the process. \<open>Exit\<close> gets
  the receiver as \<open>Run\<close> has left it.
\<close>

definition main :: "session_ops \<Rightarrow> world \<Rightarrow> int outcome" where
  "main ops wd =
     (case Run ops wd of
        Panics m \<Rightarrow> Panics m
      | Returns (err, evs, cmd) \<Rightarrow> Exit cmd err)"

section \<open>The terminal response\<close>

text \<open>
  The response the resolver ends on, in the spec's words: the first response that is not a
  redirect, reached from the start URL over fewer than \<open>maxRedirects\<close> redirects, together
  with the URL it came from; none when a request cannot be built or sent, a redirect has no
  usable \<open>Location\<close>, or the redirects do not end.
\<close>

function terminal :: "world \<Rightarrow> nat \<Rightarrow> string \<Rightarrow> (string \<times> response) option" where
  "terminal wd i userUrl =
     (if i < maxRedirects then
        (case new_request wd userUrl of
           Some e \<Rightarrow> None
         | None \<Rightarrow>
             (case client_do wd i userUrl of
                Inl e \<Rightarrow> None
              | Inr resp \<Rightarrow>
                  if 300 \<le> resp_StatusCode resp \<and> resp_StatusCode resp \<le> 399 then
                    (case resp_Location resp of
                       Inl e \<Rightarrow> None
                     | Inr loc \<Rightarrow> terminal wd (i + 1) loc)
                  else Some (userUrl, resp)))
      else None)"
  by pat_completeness auto
termination
  by (relation "measure (\<lambda>(wd, i, userUrl). maxRedirects - i)") auto

text \<open>
  In the spec's words, the maximum of redirects is followed: from the start URL on,
  \<open>maxRedirects\<close> responses in a row are redirects with a usable \<open>Location\<close>.
  \<open>redirects wd i userUrl n\<close> is the URL that \<open>n\<close> such responses lead to, from the request
  number \<open>i\<close> for \<open>userUrl\<close> on; none when one of them is missing.
\<close>

fun redirects :: "world \<Rightarrow> nat \<Rightarrow> string \<Rightarrow> nat \<Rightarrow> string option" where
  "redirects wd i userUrl 0 = Some userUrl"
| "redirects wd i userUrl (Suc n) =
     (case new_request wd userUrl of
        Some e \<Rightarrow> None
      | None \<Rightarrow>
          (case client_do wd i userUrl of
             Inl e \<Rightarrow> None
           | Inr resp \<Rightarrow>
               if 300 \<le> resp_StatusCode resp \<and> resp_StatusCode resp \<le> 399 then
                 (case resp_Location resp of
                    Inl e \<Rightarrow> None
                  | Inr loc \<Rightarrow> redirects wd (i + 1) loc n)
               else None))"

section \<open>The functions of Session, from the spec\<close>

text \<open>
  Modelled from the spec: the functions \<open>isAcceptRanges\<close>, \<open>calcParts\<close>, \<open>actualPartsOnly\<close>
  and \<open>totalWritten\<close> of \<open>Session\<close>, whose source is not among the files. The spec's words:
  \<open>AcceptRanges\<close> "bytes" enables ranges; with a count of at most one or a length of at
  most zero the planner makes a single open-ended part with \<open>Start = 0\<close> and \<open>Stop = 0\<close>,
  else it cuts the length into nearly equal contiguous ranges, the last taking the
  remainder, with the file names \<open><Suggested>.part<i>\<close>; a part with \<open>Skip\<close> set is
  discarded; the total written is the sum of \<open>Written\<close> over the parts. They instantiate the
  parameters of \<open>Run\<close> in the examples; the theorems about \<open>Run\<close> hold for every instance.
\<close>

definition new_part :: "string \<Rightarrow> nat \<Rightarrow> int64 \<Rightarrow> int64 \<Rightarrow> Part" where
  "new_part base i a b =
     \<lparr>FileName = base @ ''.part'' @ decimal i, Start = a, Stop = b, Written = 0,
      Skip = False, Elapsed = 0, name = [], order = 0, maxTry = 0, curTry = 0, quiet = False\<rparr>"

definition spec_calcParts :: "Session \<Rightarrow> int64 \<Rightarrow> Part list" where
  "spec_calcParts s n =
     (if n \<le>s 1 \<or> ContentLength s \<le>s 0 then [new_part (SuggestedFileName s) 0 0 0]
      else
        (let fragment = ContentLength s div n
         in map (\<lambda>i. new_part (SuggestedFileName s) i (of_nat i * fragment)
                        (if Suc i = unat n then ContentLength s - 1
                         else of_nat i * fragment + fragment - 1))
              [0..<unat n]))"

definition spec_ops :: session_ops where
  "spec_ops =
     \<lparr>isAcceptRanges = (\<lambda>s. AcceptRanges s = ''bytes''),
      calcParts = spec_calcParts,
      actualPartsOnly = (\<lambda>s. s\<lparr>Parts := filter (\<lambda>p. \<not> Skip p) (Parts s)\<rparr>),
      totalWritten = (\<lambda>s. sum_list (map Written (Parts s)))\<rparr>"

section \<open>Examples\<close>

text \<open>Concrete parts, responses and environments, for the instances of the theorems.\<close>

definition example_part :: Part where
  "example_part =
     \<lparr>FileName = ''file.part0'', Start = 0, Stop = 10, Written = 0, Skip = False, Elapsed = 0,
      name = ''P01'', order = 0, maxTry = 2, curTry = 0, quiet = True\<rparr>"

definition ok_response :: response where
  "ok_response =
     \<lparr>resp_StatusCode = 200, resp_Status = ''200 OK'', resp_ContentLength = 11,
      resp_Header = [(''Accept-Ranges'', ''bytes'')],
      resp_Location = Inl (OtherError ''http: no Location header in response''),
      resp_Body = Some [([104, 101, 108, 108, 111, 32, 119, 111, 114, 108, 100], EOF)],
      resp_Close = None\<rparr>"

definition answering :: "response \<Rightarrow> attempt_env" where
  "answering resp = \<lparr>do_result = Inr resp, timer_active = [True, True, True], since = 1\<rparr>"

definition unreachable :: attempt_env where
  "unreachable =
     \<lparr>do_result = Inl (UrlError True ''dial tcp: i/o timeout''), timer_active = [], since = 1\<rparr>"

definition example_download :: "attempt_env \<Rightarrow> download_env" where
  "example_download a =
     \<lparr>open_error = None, existing = [1, 2, 3], attempts = (\<lambda>count. a), canceled = (\<lambda>count. False)\<rparr>"

definition example_worker :: worker where
  "example_worker = opened (example_download unreachable) example_part"

text \<open>
  A server that answers the first request with three bytes and a broken connection and the
  second with the rest; and the second part of a download, on a server that ignores
  \<open>Range\<close>.
\<close>

definition partial_world :: download_env where
  "partial_world =
     \<lparr>open_error = None, existing = [],
      attempts = (\<lambda>count.
        if count = 0
        then answering (ok_response\<lparr>resp_StatusCode := 206, resp_Status := ''206 Partial Content'',
               resp_Body := Some [([104, 101, 108], UrlError False ''connection reset by peer'')]\<rparr>)
        else answering (ok_response\<lparr>resp_StatusCode := 206, resp_Status := ''206 Partial Content'',
               resp_Body := Some [([108, 111, 32, 119, 111, 114, 108, 100], EOF)]\<rparr>)),
      canceled = (\<lambda>count. False)\<rparr>"

definition second_part :: Part where
  "second_part = example_part\<lparr>FileName := ''file.part1'', Start := 5, name := ''P02'', order := 1\<rparr>"

definition second_worker :: worker where
  "second_worker = opened (example_download unreachable) second_part"

text \<open>A worker whose part is done, and one with a retry budget of 40.\<close>

definition done_worker :: worker where
  "done_worker = example_worker\<lparr>part := example_part\<lparr>Written := 11\<rparr>\<rparr>"

definition patient_worker :: worker where
  "patient_worker = example_worker\<lparr>part := example_part\<lparr>maxTry := 40\<rparr>\<rparr>"

text \<open>The default options, and worlds for runs of the command.\<close>

definition default_options :: Options where
  "default_options =
     \<lparr>opt_Parts = 2, opt_MaxRetry = 10, opt_Timeout = 15, opt_OutFileName = [],
      opt_JSONFileName = [], opt_UserAgent = ''chrome'', opt_BestMirror = False,
      opt_Quiet = False, opt_AuthUser = [], opt_AuthPass = [], opt_HeaderMap = Some [],
      opt_Debug = False, opt_Version = False\<rparr>"

definition plain_world :: world where
  "plain_world =
     \<lparr>parse_args = (default_options, Inr [''http://example.com/file'']),
      read_password = Inr [],
      load_state = (\<lambda>fn. Inl (OtherError ''no such file'')),
      scanner = ([], None),
      fetched = [],
      ctx_end = DeadlineExceeded,
      ended_before_select = False,
      select_takes_done = False,
      ended_before_return = False,
      jar_new = None,
      new_request = (\<lambda>u. None),
      client_do = (\<lambda>i u. Inr ok_response),
      derived_name = (\<lambda>r u. ''file''),
      follow_canceled = False,
      stat_exists = (\<lambda>fn. False),
      scanf = Inr ''n'',
      remove_files = None,
      run_worker = (\<lambda>i p. (None, p\<lparr>Written := Stop p - Start p + 1\<rparr>)),
      wait_first = 0,
      wait_canceled = False,
      concatenate = None,
      os_remove = None,
      save_state = None\<rparr>"

definition status_world :: "int \<Rightarrow> string \<Rightarrow> world" where
  "status_world code st =
     plain_world\<lparr>client_do := (\<lambda>i u. Inr (ok_response\<lparr>resp_StatusCode := code, resp_Status := st\<rparr>))\<rparr>"

definition redirecting_world :: world where
  "redirecting_world =
     plain_world\<lparr>client_do := (\<lambda>i u. Inr (ok_response\<lparr>resp_StatusCode := 302,
        resp_Status := ''302 Found'', resp_Location := Inr ''http://example.com/next''\<rparr>))\<rparr>"

definition giving_up_world :: world where
  "giving_up_world =
     plain_world\<lparr>run_worker := (\<lambda>i p. (Some (WithMessage ErrGiveUp (name p)), p))\<rparr>"

definition saved_session :: Session where
  "saved_session =
     \<lparr>Location = ''http://example.com/file'', SuggestedFileName = ''file'',
      ContentMD5 = ''abc'', AcceptRanges = ''bytes'', ContentType = [], StatusCode = 200,
      ContentLength = 11,
      HeaderMap = Some [(''User-Agent'', ''curl'')],
      Parts = [example_part\<lparr>Stop := 4, Written := 2\<rparr>,
               example_part\<lparr>FileName := ''file.part1'', Start := 5\<rparr>]\<rparr>"

definition resuming_world :: world where
  "resuming_world =
     plain_world\<lparr>parse_args := (default_options\<lparr>opt_JSONFileName := ''file.json''\<rparr>, Inr []),
       load_state := (\<lambda>fn. Inr saved_session)\<rparr>"

definition unknown_length_session :: Session where
  "unknown_length_session =
     saved_session\<lparr>ContentLength := - 1, Parts := [example_part\<lparr>Stop := 0\<rparr>]\<rparr>"

text \<open>
  A fresh run against a server that does not say the length, with a worker that gives up
  without having written anything.
\<close>

definition unknown_length_world :: world where
  "unknown_length_world =
     plain_world\<lparr>client_do := (\<lambda>i u. Inr (ok_response\<lparr>resp_ContentLength := - 1\<rparr>)),
       run_worker := (\<lambda>i p. (Some (WithMessage ErrGiveUp (name p)), p))\<rparr>"

text \<open>Runs that ask for the version, give no URL, or are interrupted by the user.\<close>

definition version_world :: world where
  "version_world = plain_world\<lparr>parse_args := (default_options\<lparr>opt_Version := True\<rparr>, Inr [])\<rparr>"

definition usage_world :: world where
  "usage_world = plain_world\<lparr>parse_args := (default_options, Inr [])\<rparr>"

definition interrupted_world :: world where
  "interrupted_world =
     plain_world\<lparr>client_do := (\<lambda>i u. Inl (UrlError False ''context canceled'')),
       follow_canceled := True, wait_canceled := True\<rparr>"

text \<open>
  A run with \<open>--best-mirror\<close>: a list with a comment, a blank line and white space around
  the URLs; the second URL is malformed; the first mirror answers 503, the fifth cannot
  be reached, then the third answers 200 and after it the fourth. And the same run with
  the context ending between the \<open>select\<close> and the return.
\<close>

definition mirror_world :: world where
  "mirror_world =
     plain_world\<lparr>parse_args := (default_options\<lparr>opt_BestMirror := True\<rparr>, Inr []),
       scanner := ([''# mirrors'', ''  http://a.example/file  '', [], ''http://[b.example/file'',
                    [CHR 0x09] @ ''http://c.example/file'' @ [CHR 0x0D], ''http://d.example/file'',
                    ''http://e.example/file''], None),
       new_request := (\<lambda>u. if u = ''http://[b.example/file''
                             then Some (OtherError ''missing ] in host'') else None),
       fetched := [(0, Inr (ok_response\<lparr>resp_StatusCode := 503, resp_Status := ''503 Service Unavailable''\<rparr>)),
                   (4, Inl (UrlError False ''connection refused'')),
                   (2, Inr ok_response),
                   (3, Inr ok_response)]\<rparr>"

definition late_world :: world where
  "late_world = mirror_world\<lparr>ended_before_return := True\<rparr>"

section \<open>What an attempt leaves alone\<close>

text \<open>
  \<open>grows w w'\<close>: from \<open>w\<close> to \<open>w'\<close> the part keeps its private fields \<open>maxTry\<close>, \<open>order\<close>
  and \<open>name\<close>, the file is neither opened again nor removed, and the file, the requests and
  the messages only get longer.
\<close>

definition grows :: "worker \<Rightarrow> worker \<Rightarrow> bool" where
  "grows w w' \<longleftrightarrow>
     maxTry (part w') = maxTry (part w) \<and> order (part w') = order (part w) \<and>
     name (part w') = name (part w) \<and> opens w' = opens w \<and> removed w' = removed w \<and>
     prefix (fpart w) (fpart w') \<and> prefix (requests w) (requests w') \<and>
     prefix (flashed w) (flashed w')"

declare Retry.simps [code]

declare follow_loop.simps [simp del] terminal.simps [simp del] decimal.simps [simp del]

declare strip.simps [simp del]

lemma grows_refl: "grows w w"
  by (simp add: grows_def)

lemma grows_trans: "grows a b \<Longrightarrow> grows b c \<Longrightarrow> grows a c"
  by (auto simp: grows_def)

lemma grows_flash: "grows w (flash m f w)"
  by (simp add: grows_def flash_def)

lemma grows_Copy_fpart: "grows w (Copy_fpart buf w)"
  by (simp add: grows_def Copy_fpart_def)

lemma requests_flash: "requests (flash m f w) = requests w"
  by (simp add: flash_def)

lemma requests_Copy_fpart: "requests (Copy_fpart buf w) = requests w"
  by (simp add: Copy_fpart_def)

lemma stream_grows: "stream ts b mx buf err w = (err', buf', w') \<Longrightarrow> grows w w' \<and> requests w' = requests w"
proof (induction ts arbitrary: b mx buf err w)
  case Nil
  then show ?case by (simp add: grows_refl)
next
  case (Cons a ts)
  show ?case
  proof (cases a)
    case False
    with Cons.prems show ?thesis by (simp add: grows_refl)
  next
    case True
    obtain d e b' where c: "CopyN b mx = (d, e, b')" by (cases "CopyN b mx") auto
    show ?thesis
    proof (cases e)
      case None
      with Cons.prems True c have "stream ts b' bufSize [] None (Copy_fpart (buf @ d) w) = (err', buf', w')"
        by simp
      from Cons.IH[OF this] show ?thesis
        using grows_trans[OF grows_Copy_fpart] by (auto simp: requests_Copy_fpart)
    next
      case (Some er)
      show ?thesis
      proof (cases er)
        case (UrlError tmp tx)
        show ?thesis
        proof (cases tmp)
          case True
          with Cons.prems \<open>a\<close> c Some UrlError
          have "stream ts b' (mx - length d) (buf @ d) (Some (UrlError tmp tx)) (flash (take 30 tx @ ''..'') False w) = (err', buf', w')"
            by simp
          from Cons.IH[OF this] show ?thesis
            using grows_trans[OF grows_flash] by (auto simp: requests_flash)
        next
          case False
          with Cons.prems \<open>a\<close> c Some UrlError show ?thesis
            by (auto simp: grows_flash requests_flash)
        qed
      qed (use Cons.prems True c Some in \<open>auto simp: grows_refl\<close>)
    qed
  qed
qed


lemma finish_grows: "finish (err, buf, w) = (r, w') \<Longrightarrow> grows w w' \<and> requests w' = requests w"
  by (auto simp: finish_def Let_def grows_def Copy_fpart_def split: if_splits)

lemma on_status_grows: "on_status resp w = (r, w') \<Longrightarrow> grows w w' \<and> requests w' = requests w"
  by (auto simp: on_status_def Let_def grows_def flash_def split: if_splits)

lemma issue_grows: "grows w (issue timeout count w)"
  by (simp add: issue_def Let_def grows_def flash_def)

lemma requests_issue: "requests (issue timeout count w) = requests w @ [getRange (part w)]"
  by (simp add: issue_def Let_def flash_def)

lemma request_grows:
  assumes "request timeout env count w = (r, w')"
  shows "grows w w' \<and> requests w' = requests w @ [getRange (part w)]"
proof (cases "do_result env")
  case (Inl e)
  with assms show ?thesis by (auto simp: request_def issue_grows requests_issue)
next
  case (Inr resp)
  obtain o3 w3 where os: "on_status resp (issue timeout count w) = (o3, w3)"
    by (cases "on_status resp (issue timeout count w)") auto
  from on_status_grows[OF os] issue_grows[of w timeout count]
  have g3: "grows w w3" and r3: "requests w3 = requests w @ [getRange (part w)]"
    by (auto intro: grows_trans simp: requests_issue)
  show ?thesis
  proof (cases o3)
    case (Some a)
    with assms Inr os g3 r3 show ?thesis by (auto simp: request_def)
  next
    case None
    show ?thesis
    proof (cases "resp_Body resp")
      case None
      with assms Inr os g3 r3 \<open>o3 = None\<close> show ?thesis by (auto simp: request_def)
    next
      case (Some b)
      obtain e1 b1 w1 where st: "stream (timer_active env) b bufSize [] None w3 = (e1, b1, w1)"
        by (cases "stream (timer_active env) b bufSize [] None w3") auto
      with assms Inr os \<open>o3 = None\<close> Some have f: "finish (e1, b1, w1) = (r, w')"
        by (simp add: request_def)
      from stream_grows[OF st] finish_grows[OF f] g3 r3 show ?thesis
        by (auto intro: grows_trans)
    qed
  qed
qed

lemma add_elapsed_grows: "add_elapsed d (r, w) = (r', w') \<Longrightarrow> r' = r \<and> grows w w' \<and> requests w' = requests w"
  by (auto simp: add_elapsed_def grows_def)

lemma attempt_over: "count > maxTry (part w) \<Longrightarrow> attempt timeout env count w = ((False, Some ErrGiveUp), w)"
  by (simp add: attempt_def)

lemma attempt_done: "count \<le> maxTry (part w) \<Longrightarrow> isDone (part w) \<Longrightarrow> attempt timeout env count w = ((False, None), w)"
  by (simp add: attempt_def)

lemma attempt_request: "count \<le> maxTry (part w) \<Longrightarrow> \<not> isDone (part w) \<Longrightarrow>
  attempt timeout env count w = add_elapsed (since env) (request timeout env count w)"
  by (simp add: attempt_def)

lemma attempt_grows:
  assumes "attempt timeout env count w = (r, w')"
  shows "grows w w' \<and> length (requests w') \<le> Suc (length (requests w))"
proof (cases "count \<le> maxTry (part w) \<and> \<not> isDone (part w)")
  case True
  obtain r1 w1 where rq: "request timeout env count w = (r1, w1)"
    by (cases "request timeout env count w") auto
  with assms True have "add_elapsed (since env) (r1, w1) = (r, w')"
    by (simp add: attempt_def)
  from add_elapsed_grows[OF this] request_grows[OF rq] show ?thesis
    by (auto intro: grows_trans)
next
  case False
  with assms show ?thesis by (auto simp: attempt_def grows_refl split: if_splits)
qed

lemma Retry_stop: "fn count s = ((False, err), s') \<Longrightarrow> Retry cn fn count s = Some (err, s')"
  by (subst Retry.simps) simp

lemma Retry_canceled: "fn count s = ((True, err), s') \<Longrightarrow> cn count \<Longrightarrow> Retry cn fn count s = Some (Some ContextCanceled, s')"
  by (subst Retry.simps) simp

lemma Retry_again: "fn count s = ((True, err), s') \<Longrightarrow> \<not> cn count \<Longrightarrow> Retry cn fn count s = Retry cn fn (count + 1) s'"
  by (subst Retry.simps) simp

lemma Retry_attempt:
  "\<exists>err w'. Retry cn (\<lambda>k. attempt timeout (envs k) k) count w = Some (err, w') \<and> grows w w' \<and>
      length (requests w') \<le> length (requests w) + nat (maxTry (part w) + 1 - count)"
proof (induction "nat (maxTry (part w) + 1 - count)" arbitrary: count w)
  case 0
  then have "count > maxTry (part w)" by simp
  then show ?case
    by (auto simp: Retry_stop[OF attempt_over] grows_refl)
next
  case (Suc n)
  then have le: "count \<le> maxTry (part w)" by simp
  obtain retry err w1 where a: "attempt timeout (envs count) count w = ((retry, err), w1)"
    by (cases "attempt timeout (envs count) count w") auto
  from attempt_grows[OF a] have g: "grows w w1" and l: "length (requests w1) \<le> Suc (length (requests w))"
    by auto
  from g have m: "maxTry (part w1) = maxTry (part w)" by (simp add: grows_def)
  show ?case
  proof (cases "retry \<and> \<not> cn count")
    case False
    then have "Retry cn (\<lambda>k. attempt timeout (envs k) k) count w = Some (err, w1)
       \<or> Retry cn (\<lambda>k. attempt timeout (envs k) k) count w = Some (Some ContextCanceled, w1)"
      using a by (cases retry) (auto simp: Retry_stop Retry_canceled)
    with g l le show ?thesis by auto
  next
    case True
    then have r: "Retry cn (\<lambda>k. attempt timeout (envs k) k) count w = Retry cn (\<lambda>k. attempt timeout (envs k) k) (count + 1) w1"
      using a by (auto simp: Retry_again)
    have "n = nat (maxTry (part w1) + 1 - (count + 1))" using Suc.hyps(2) m by simp
    from Suc.hyps(1)[OF this] obtain err' w' where
      "Retry cn (\<lambda>k. attempt timeout (envs k) k) (count + 1) w1 = Some (err', w')" "grows w1 w'"
      "length (requests w') \<le> length (requests w1) + nat (maxTry (part w1) + 1 - (count + 1))"
      by blast
    with r g l m le show ?thesis
      by (auto intro: grows_trans)
  qed
qed



lemma fpart_issue: "fpart (issue timeout count w) = fpart w"
  by (simp add: issue_def Let_def flash_def)

lemma part_issue:
  "order (part (issue timeout count w)) = order (part w)"
  by (simp add: issue_def Let_def flash_def)

lemma download_total:
  "\<exists>err w'. download denv timeout p = Some (err, w') \<and>
      length (requests w') \<le> nat (maxTry p + 1) \<and> prefix (existing denv) (fpart w') \<and>
      opens w' = (if open_error denv = None then 1 else 0)"
proof (cases "open_error denv")
  case (Some e)
  then show ?thesis by (simp add: download_def not_opened_def opened_def)
next
  case None
  from Retry_attempt[of "canceled denv" timeout "attempts denv" 0 "opened denv p"]
  obtain err w' where r: "Retry (canceled denv) (\<lambda>k. attempt timeout (attempts denv k) k) 0 (opened denv p) = Some (err, w')"
    and g: "grows (opened denv p) w'"
    and l: "length (requests w') \<le> length (requests (opened denv p)) + nat (maxTry (part (opened denv p)) + 1 - 0)"
    by blast
  from None r g l show ?thesis
    by (simp add: download_def Let_def flash_def grows_def opened_def)
qed

section \<open>Part workers: status 200 and unexpected statuses\<close>

lemma CopyN_bytes: "CopyN b n = (d, e, b') \<Longrightarrow> concat (map fst b) = d @ concat (map fst b')"
  by (cases b) (auto simp: CopyN_def split: if_splits)

lemma fpart_flash: "fpart (flash m f w) = fpart w"
  by (simp add: flash_def)

lemma part_flash: "part (flash m f w) = part w"
  by (simp add: flash_def)

lemma stream_appends:
  "stream ts b mx buf err w = (err', buf', w') \<Longrightarrow>
   \<exists>x y. fpart w' = fpart w @ x \<and> Written (part w') = Written (part w) + of_nat (length x) \<and>
         x @ buf' = buf @ y \<and> prefix y (concat (map fst b))"
proof (induction ts arbitrary: b mx buf err w)
  case Nil
  then show ?case by simp
next
  case (Cons a ts)
  show ?case
  proof (cases a)
    case False
    with Cons.prems show ?thesis by simp
  next
    case True
    obtain d e b' where c: "CopyN b mx = (d, e, b')" by (cases "CopyN b mx") auto
    note bytes = CopyN_bytes[OF c]
    show ?thesis
    proof (cases e)
      case None
      with Cons.prems True c have "stream ts b' bufSize [] None (Copy_fpart (buf @ d) w) = (err', buf', w')"
        by simp
      from Cons.IH[OF this] obtain x2 y2 where
        f: "fpart w' = fpart (Copy_fpart (buf @ d) w) @ x2"
        and wr: "Written (part w') = Written (part (Copy_fpart (buf @ d) w)) + of_nat (length x2)"
        and xy: "x2 @ buf' = [] @ y2" and p: "prefix y2 (concat (map fst b'))"
        by blast
      have "fpart w' = fpart w @ (buf @ d @ x2)" using f by (simp add: Copy_fpart_def)
      moreover have "Written (part w') = Written (part w) + of_nat (length (buf @ d @ x2))"
        using wr by (simp add: Copy_fpart_def)
      moreover have "(buf @ d @ x2) @ buf' = buf @ (d @ y2)" using xy by simp
      moreover have "prefix (d @ y2) (concat (map fst b))" using p bytes by simp
      ultimately show ?thesis by blast
    next
      case (Some er)
      have stop: "(err', buf', w') = (Some er, buf @ d, w) \<or>
          (\<exists>m. (err', buf', w') = (Some er, buf @ d, flash m False w)) \<Longrightarrow> ?thesis"
      proof -
        assume "(err', buf', w') = (Some er, buf @ d, w) \<or>
          (\<exists>m. (err', buf', w') = (Some er, buf @ d, flash m False w))"
        then have "fpart w' = fpart w @ []" "Written (part w') = Written (part w) + of_nat (length ([] :: byte list))"
          "[] @ buf' = buf @ d"
          by (auto simp: fpart_flash part_flash)
        moreover have "prefix d (concat (map fst b))" using bytes by simp
        ultimately show ?thesis by blast
      qed
      show ?thesis
      proof (cases "\<exists>tmp tx. er = UrlError tmp tx")
        case False
        with Cons.prems True c Some have "(err', buf', w') = (Some er, buf @ d, w)"
          by (cases er) auto
        then show ?thesis by (intro stop) simp
      next
        case True
        then obtain tmp tx where UrlError: "er = UrlError tmp tx" by blast
        show ?thesis
        proof (cases tmp)
          case True
          with Cons.prems \<open>a\<close> c Some UrlError
          have "stream ts b' (mx - length d) (buf @ d) (Some (UrlError tmp tx)) (flash (take 30 tx @ ''..'') False w) = (err', buf', w')"
            by simp
          from Cons.IH[OF this] obtain x2 y2 where
            f: "fpart w' = fpart (flash (take 30 tx @ ''..'') False w) @ x2"
            and wr: "Written (part w') = Written (part (flash (take 30 tx @ ''..'') False w)) + of_nat (length x2)"
            and xy: "x2 @ buf' = (buf @ d) @ y2" and p: "prefix y2 (concat (map fst b'))"
            by blast
          have "fpart w' = fpart w @ x2" using f by (simp add: fpart_flash)
          moreover have "Written (part w') = Written (part w) + of_nat (length x2)"
            using wr by (simp add: part_flash)
          moreover have "x2 @ buf' = buf @ (d @ y2)" using xy by simp
          moreover have "prefix (d @ y2) (concat (map fst b))" using p bytes by simp
          ultimately show ?thesis by blast
        next
          case False
          with Cons.prems \<open>a\<close> c Some UrlError
          have "\<exists>m. (err', buf', w') = (Some er, buf @ d, flash m False w)"
            by auto
          then show ?thesis by (intro stop) simp
        qed
      qed
    qed
  qed
qed

lemma stream_EOF:
  "\<forall>a\<in>set ts. a \<Longrightarrow> length d div bufSize < length ts \<Longrightarrow>
   stream ts [(d, EOF)] bufSize [] err w =
     (Some EOF, drop (length d div bufSize * bufSize) d,
      Copy_fpart (take (length d div bufSize * bufSize) d) w)"
proof (induction ts arbitrary: d err w)
  case Nil
  then show ?case by simp
next
  case (Cons a ts)
  then have a: a by simp
  have pos: "0 < bufSize" by (simp add: bufSize_def)
  show ?case
  proof (cases "bufSize \<le> length d")
    case False
    then have "length d div bufSize = 0" by simp
    with False a pos show ?thesis
      by (simp add: CopyN_def Copy_fpart_def)
  next
    case True
    let ?d' = "drop bufSize d"
    have q: "length ?d' div bufSize = length d div bufSize - 1"
      using True pos by (simp add: le_div_geq)
    have q1: "length d div bufSize = Suc (length ?d' div bufSize)"
      using True pos by (simp add: le_div_geq)
    from Cons.prems q1 have h: "\<forall>a\<in>set ts. a" "length ?d' div bufSize < length ts"
      by auto
    have c: "CopyN [(d, EOF)] bufSize = (take bufSize d, None, [(?d', EOF)])"
      using True pos by (simp add: CopyN_def)
    have "stream (a # ts) [(d, EOF)] bufSize [] err w =
        stream ts [(?d', EOF)] bufSize [] None (Copy_fpart (take bufSize d) w)"
      using a c by simp
    also have "\<dots> = (Some EOF, drop (length ?d' div bufSize * bufSize) ?d',
        Copy_fpart (take (length ?d' div bufSize * bufSize) ?d') (Copy_fpart (take bufSize d) w))"
      by (rule Cons.IH[OF h])
    also have "drop (length ?d' div bufSize * bufSize) ?d' = drop (length d div bufSize * bufSize) d"
      by (simp add: q1 add.commute)
    also have "Copy_fpart (take (length ?d' div bufSize * bufSize) ?d') (Copy_fpart (take bufSize d) w) =
        Copy_fpart (take (length d div bufSize * bufSize) d) w"
    proof -
      have t: "take (length d div bufSize * bufSize) d =
          take bufSize d @ take (length ?d' div bufSize * bufSize) ?d'"
        by (simp add: q1 take_add)
      have l: "length (take bufSize d) = bufSize" using True by simp
      show ?thesis
        unfolding t by (simp add: Copy_fpart_def)
    qed
    finally show ?thesis .
  qed
qed


lemma finish_written:
  "fpart (snd (finish (e, buf, w))) = fpart w @ buf \<and>
   Written (part (snd (finish (e, buf, w)))) = Written (part w) + of_nat (length buf) \<and>
   total_w (snd (finish (e, buf, w))) = total_w w \<and>
   Stop (part (snd (finish (e, buf, w)))) =
     (if total_w w \<le>s 0 then Written (part w) + of_nat (length buf) - 1 else Stop (part w))"
  by (simp add: finish_def Let_def Copy_fpart_def)

lemma finish_EOF: "fst (finish (Some EOF, buf, w)) = (False, None)"
  by (simp add: finish_def Let_def)

lemma add_elapsed_keeps:
  "fst (add_elapsed d r) = fst r \<and> fpart (snd (add_elapsed d r)) = fpart (snd r) \<and>
   Written (part (snd (add_elapsed d r))) = Written (part (snd r)) \<and>
   Stop (part (snd (add_elapsed d r))) = Stop (part (snd r)) \<and>
   total_w (snd (add_elapsed d r)) = total_w (snd r)"
  by (cases r) (simp add: add_elapsed_def)

text \<open>What the attempt that adopts a 200 response writes.\<close>

lemma adopted_appends:
  assumes "attempt timeout env count w =
      add_elapsed (since env) (finish (stream (timer_active env) b bufSize [] None adopted))"
    and "fpart adopted = fpart w" and "Written (part adopted) = 0"
  shows "\<exists>x. prefix x (concat (map fst b)) \<and>
      fpart (snd (attempt timeout env count w)) = fpart w @ x \<and>
      Written (part (snd (attempt timeout env count w))) = of_nat (length x)"
proof -
  obtain e1 b1 w1 where st: "stream (timer_active env) b bufSize [] None adopted = (e1, b1, w1)"
    by (cases "stream (timer_active env) b bufSize [] None adopted") auto
  from stream_appends[OF st] obtain x y where
    f: "fpart w1 = fpart adopted @ x"
    and wr: "Written (part w1) = Written (part adopted) + of_nat (length x)"
    and xy: "x @ b1 = [] @ y" and p: "prefix y (concat (map fst b))"
    by blast
  have "fpart (snd (attempt timeout env count w)) = fpart w @ y"
    using f xy assms(2) by (simp add: assms(1) st add_elapsed_keeps finish_written)
  moreover have "Written (part (snd (attempt timeout env count w))) = of_nat (length x) + of_nat (length b1)"
    using wr assms(3) by (simp add: assms(1) st add_elapsed_keeps finish_written)
  moreover have "length y = length x + length b1" using xy by (simp flip: length_append)
  ultimately show ?thesis using p by (intro exI[of _ y]) simp
qed

lemma adopted_EOF:
  assumes "attempt timeout env count w =
      add_elapsed (since env) (finish (stream (timer_active env) [(d, EOF)] bufSize [] None adopted))"
    and "fpart adopted = fpart w" and "Written (part adopted) = 0"
    and "\<forall>a\<in>set (timer_active env). a" and "length d div bufSize < length (timer_active env)"
  shows "fst (attempt timeout env count w) = (False, None) \<and>
      fpart (snd (attempt timeout env count w)) = fpart w @ d \<and>
      Written (part (snd (attempt timeout env count w))) = of_nat (length d) \<and>
      total_w (snd (attempt timeout env count w)) = total_w adopted \<and>
      Stop (part (snd (attempt timeout env count w))) =
        (if total_w adopted \<le>s 0 then of_nat (length d) - 1 else Stop (part adopted))"
proof -
  let ?k = "length d div bufSize * bufSize"
  have k: "?k \<le> length d" by simp
  have st: "stream (timer_active env) [(d, EOF)] bufSize [] None adopted =
      (Some EOF, drop ?k d, Copy_fpart (take ?k d) adopted)"
    using assms(4,5) by (rule stream_EOF)
  have "?k + (length d - ?k) = length d" using k by simp
  then have "(of_nat ?k :: int64) + of_nat (length d - ?k) = of_nat (length d)"
    by (metis of_nat_add)
  moreover have "min (length d) ?k = ?k" using k by simp
  ultimately have l: "(of_nat (min (length d) ?k) :: int64) + of_nat (length d - ?k) = of_nat (length d)"
    by simp
  show ?thesis
    using assms(2,3) l
    by (simp add: assms(1) st add_elapsed_keeps finish_written finish_EOF Copy_fpart_def)
qed

text \<open>
  C4. An attempt that gets as far as the request (\<open>count \<le> maxTry\<close>, part not done) and whose
  \<open>client.Do\<close> returns a response:
  \<^item> with status 200 and part index 0, the status switch goes on to the body with \<open>total\<close> set
    to the response's \<open>ContentLength\<close>, \<open>Stop = total - 1\<close> and \<open>Written = 0\<close>, and the attempt
    is the streaming of the body from that state;
  \<^item> with status 200 and another index, the attempt sets \<open>Skip\<close> and returns success, and the
    retry loop ends with it;
  \<^item> with a status that is neither 200 nor 206, the attempt fails with
    \<open>unexpected status\<close> and asks for no retry, so the retry loop ends with that error;
  \<^item> what the attempt that adopted a 200 response has written when it returns: the file is
    its old content followed by bytes from the front of the body, and \<open>Written\<close> is the
    number of these bytes, counted from 0. When the body ends with \<open>EOF\<close> and the timer
    does not fire, these are all the bytes of the body, the attempt returns success and the
    retry loop ends with it, \<open>total\<close> is the response's \<open>ContentLength\<close>, and \<open>Stop\<close> is
    \<open>total - 1\<close>, or \<open>Written - 1\<close> when \<open>total \<le> 0\<close>.
\<close>

theorem status_200_and_unexpected:
  assumes "count \<le> maxTry (part w)" and "\<not> isDone (part w)"
    and "do_result (envs count) = Inr resp"
  shows
    "(resp_StatusCode resp = 200 \<and> order (part w) = 0 \<longrightarrow>
        (let w0 = issue timeout count w;
             adopted = w0\<lparr>total_w := resp_ContentLength resp,
                          part := (part w0)\<lparr>Stop := resp_ContentLength resp - 1, Written := 0\<rparr>\<rparr>
         in on_status resp w0 = (None, adopted) \<and>
            (\<forall>b. resp_Body resp = Some b \<longrightarrow>
               attempt timeout (envs count) count w =
                 add_elapsed (since (envs count))
                   (finish (stream (timer_active (envs count)) b bufSize [] None adopted))))) \<and>
     (resp_StatusCode resp = 200 \<and> order (part w) \<noteq> 0 \<longrightarrow>
        fst (attempt timeout (envs count) count w) = (False, None) \<and>
        Skip (part (snd (attempt timeout (envs count) count w))) \<and>
        Retry cn (\<lambda>k. attempt timeout (envs k) k) count w =
          Some (None, snd (attempt timeout (envs count) count w))) \<and>
     (resp_StatusCode resp \<noteq> 200 \<and> resp_StatusCode resp \<noteq> 206 \<longrightarrow>
        fst (attempt timeout (envs count) count w) =
          (False, Some (Fundamental ''unexpected status: %s'' [S (resp_Status resp)])) \<and>
        Retry cn (\<lambda>k. attempt timeout (envs k) k) count w =
          Some (Some (Fundamental ''unexpected status: %s'' [S (resp_Status resp)]),
                snd (attempt timeout (envs count) count w))) \<and>
     (resp_StatusCode resp = 200 \<and> order (part w) = 0 \<longrightarrow>
        (\<forall>b. resp_Body resp = Some b \<longrightarrow>
           (\<exists>x. prefix x (concat (map fst b)) \<and>
              fpart (snd (attempt timeout (envs count) count w)) = fpart w @ x \<and>
              Written (part (snd (attempt timeout (envs count) count w))) = of_nat (length x))) \<and>
        (\<forall>d. resp_Body resp = Some [(d, EOF)] \<and> (\<forall>a\<in>set (timer_active (envs count)). a) \<and>
              length d div bufSize < length (timer_active (envs count)) \<longrightarrow>
           fst (attempt timeout (envs count) count w) = (False, None) \<and>
           fpart (snd (attempt timeout (envs count) count w)) = fpart w @ d \<and>
           Written (part (snd (attempt timeout (envs count) count w))) = of_nat (length d) \<and>
           total_w (snd (attempt timeout (envs count) count w)) = resp_ContentLength resp \<and>
           Stop (part (snd (attempt timeout (envs count) count w))) =
             (if resp_ContentLength resp \<le>s 0 then of_nat (length d) - 1
              else resp_ContentLength resp - 1) \<and>
           Retry cn (\<lambda>k. attempt timeout (envs k) k) count w =
             Some (None, snd (attempt timeout (envs count) count w))))"
proof -
  let ?adopted = "(issue timeout count w)\<lparr>total_w := resp_ContentLength resp,
           part := (part (issue timeout count w))\<lparr>Stop := resp_ContentLength resp - 1, Written := 0\<rparr>\<rparr>"
  have a: "attempt timeout (envs count) count w =
      add_elapsed (since (envs count)) (request timeout (envs count) count w)"
    using assms(1,2) by (rule attempt_request)
  have adopt: "resp_StatusCode resp = 200 \<Longrightarrow> order (part w) = 0 \<Longrightarrow>
      on_status resp (issue timeout count w) = (None, ?adopted)"
    by (simp add: on_status_def part_issue)
  have c1: "resp_StatusCode resp = 200 \<Longrightarrow> order (part w) = 0 \<Longrightarrow> resp_Body resp = Some b \<Longrightarrow>
      attempt timeout (envs count) count w =
        add_elapsed (since (envs count))
          (finish (stream (timer_active (envs count)) b bufSize [] None ?adopted))" for b
    using adopt assms(3) by (simp add: a request_def)
  have skip: "resp_StatusCode resp = 200 \<Longrightarrow> order (part w) \<noteq> 0 \<Longrightarrow>
      attempt timeout (envs count) count w =
        add_elapsed (since (envs count)) ((False, None), (issue timeout count w)\<lparr>part := (part (issue timeout count w))\<lparr>Skip := True\<rparr>\<rparr>)"
    using assms(3) by (simp add: a request_def on_status_def part_issue)
  have c2: "resp_StatusCode resp = 200 \<Longrightarrow> order (part w) \<noteq> 0 \<Longrightarrow>
      fst (attempt timeout (envs count) count w) = (False, None) \<and>
      Skip (part (snd (attempt timeout (envs count) count w)))"
    by (simp add: skip add_elapsed_def)
  have fail: "resp_StatusCode resp \<noteq> 200 \<Longrightarrow> resp_StatusCode resp \<noteq> 206 \<Longrightarrow>
      fst (attempt timeout (envs count) count w) =
        (False, Some (Fundamental ''unexpected status: %s'' [S (resp_Status resp)]))"
    using assms(3) by (simp add: a request_def on_status_def Let_def add_elapsed_def)
  have stop: "fst (attempt timeout (envs count) count w) = (False, e) \<Longrightarrow>
      Retry cn (\<lambda>k. attempt timeout (envs k) k) count w =
        Some (e, snd (attempt timeout (envs count) count w))" for e
    by (rule Retry_stop) (simp add: prod_eq_iff)
  have fa: "fpart ?adopted = fpart w" "Written (part ?adopted) = 0"
    "total_w ?adopted = resp_ContentLength resp" "Stop (part ?adopted) = resp_ContentLength resp - 1"
    by (simp_all add: fpart_issue)
  have c4: "resp_StatusCode resp = 200 \<Longrightarrow> order (part w) = 0 \<Longrightarrow> resp_Body resp = Some b \<Longrightarrow>
      \<exists>x. prefix x (concat (map fst b)) \<and>
        fpart (snd (attempt timeout (envs count) count w)) = fpart w @ x \<and>
        Written (part (snd (attempt timeout (envs count) count w))) = of_nat (length x)" for b
    using adopted_appends[OF c1 fa(1,2)] by simp
  have c5: "resp_StatusCode resp = 200 \<Longrightarrow> order (part w) = 0 \<Longrightarrow>
      resp_Body resp = Some [(d, EOF)] \<Longrightarrow> \<forall>a\<in>set (timer_active (envs count)). a \<Longrightarrow>
      length d div bufSize < length (timer_active (envs count)) \<Longrightarrow>
      fst (attempt timeout (envs count) count w) = (False, None) \<and>
      fpart (snd (attempt timeout (envs count) count w)) = fpart w @ d \<and>
      Written (part (snd (attempt timeout (envs count) count w))) = of_nat (length d) \<and>
      total_w (snd (attempt timeout (envs count) count w)) = resp_ContentLength resp \<and>
      Stop (part (snd (attempt timeout (envs count) count w))) =
        (if resp_ContentLength resp \<le>s 0 then of_nat (length d) - 1
         else resp_ContentLength resp - 1)" for d
    using adopted_EOF[OF c1 fa(1,2)] fa(3,4) by simp
  have p1: "resp_StatusCode resp = 200 \<and> order (part w) = 0 \<longrightarrow>
        (let w0 = issue timeout count w;
             adopted = w0\<lparr>total_w := resp_ContentLength resp,
                          part := (part w0)\<lparr>Stop := resp_ContentLength resp - 1, Written := 0\<rparr>\<rparr>
         in on_status resp w0 = (None, adopted) \<and>
            (\<forall>b. resp_Body resp = Some b \<longrightarrow>
               attempt timeout (envs count) count w =
                 add_elapsed (since (envs count))
                   (finish (stream (timer_active (envs count)) b bufSize [] None adopted))))"
    using adopt c1 by (simp add: Let_def)
  have p2: "resp_StatusCode resp = 200 \<and> order (part w) \<noteq> 0 \<longrightarrow>
        fst (attempt timeout (envs count) count w) = (False, None) \<and>
        Skip (part (snd (attempt timeout (envs count) count w))) \<and>
        Retry cn (\<lambda>k. attempt timeout (envs k) k) count w =
          Some (None, snd (attempt timeout (envs count) count w))"
    using c2 stop by simp
  have p3: "resp_StatusCode resp \<noteq> 200 \<and> resp_StatusCode resp \<noteq> 206 \<longrightarrow>
        fst (attempt timeout (envs count) count w) =
          (False, Some (Fundamental ''unexpected status: %s'' [S (resp_Status resp)])) \<and>
        Retry cn (\<lambda>k. attempt timeout (envs k) k) count w =
          Some (Some (Fundamental ''unexpected status: %s'' [S (resp_Status resp)]),
                snd (attempt timeout (envs count) count w))"
    using fail stop by simp
  have p4: "resp_StatusCode resp = 200 \<and> order (part w) = 0 \<longrightarrow>
        (\<forall>b. resp_Body resp = Some b \<longrightarrow>
           (\<exists>x. prefix x (concat (map fst b)) \<and>
              fpart (snd (attempt timeout (envs count) count w)) = fpart w @ x \<and>
              Written (part (snd (attempt timeout (envs count) count w))) = of_nat (length x))) \<and>
        (\<forall>d. resp_Body resp = Some [(d, EOF)] \<and> (\<forall>a\<in>set (timer_active (envs count)). a) \<and>
              length d div bufSize < length (timer_active (envs count)) \<longrightarrow>
           fst (attempt timeout (envs count) count w) = (False, None) \<and>
           fpart (snd (attempt timeout (envs count) count w)) = fpart w @ d \<and>
           Written (part (snd (attempt timeout (envs count) count w))) = of_nat (length d) \<and>
           total_w (snd (attempt timeout (envs count) count w)) = resp_ContentLength resp \<and>
           Stop (part (snd (attempt timeout (envs count) count w))) =
             (if resp_ContentLength resp \<le>s 0 then of_nat (length d) - 1
              else resp_ContentLength resp - 1) \<and>
           Retry cn (\<lambda>k. attempt timeout (envs k) k) count w =
             Some (None, snd (attempt timeout (envs count) count w)))"
  proof (intro impI conjI allI; (elim conjE)?)
    fix b assume "resp_StatusCode resp = 200" "order (part w) = 0" "resp_Body resp = Some b"
    then show "\<exists>x. prefix x (concat (map fst b)) \<and>
              fpart (snd (attempt timeout (envs count) count w)) = fpart w @ x \<and>
              Written (part (snd (attempt timeout (envs count) count w))) = of_nat (length x)"
      by (rule c4)
  next
    fix d assume h: "resp_StatusCode resp = 200" "order (part w) = 0" "resp_Body resp = Some [(d, EOF)]"
      "\<forall>a\<in>set (timer_active (envs count)). a" "length d div bufSize < length (timer_active (envs count))"
    note r = c5[OF h]
    from r show "fst (attempt timeout (envs count) count w) = (False, None)" by simp
    from r show "fpart (snd (attempt timeout (envs count) count w)) = fpart w @ d" by simp
    from r show "Written (part (snd (attempt timeout (envs count) count w))) = of_nat (length d)" by simp
    from r show "total_w (snd (attempt timeout (envs count) count w)) = resp_ContentLength resp" by simp
    from r show "Stop (part (snd (attempt timeout (envs count) count w))) =
             (if resp_ContentLength resp \<le>s 0 then of_nat (length d) - 1
              else resp_ContentLength resp - 1)" by simp
    from r stop[of None] show "Retry cn (\<lambda>k. attempt timeout (envs k) k) count w =
             Some (None, snd (attempt timeout (envs count) count w))" by simp
  qed
  from p1 p2 p3 p4 show ?thesis by (intro conjI)
qed


theorem status_200_and_unexpected_witness:
  "on_status ok_response (issue 15 0 example_worker) =
     (None, (issue 15 0 example_worker)\<lparr>total_w := 11,
        part := (part (issue 15 0 example_worker))\<lparr>Stop := 10, Written := 0\<rparr>\<rparr>) \<and>
   fst (attempt 15 (answering ok_response) 0 example_worker) = (False, None) \<and>
   fpart example_worker = [1, 2, 3] \<and>
   fpart (snd (attempt 15 (answering ok_response) 0 example_worker)) =
     [1, 2, 3, 104, 101, 108, 108, 111, 32, 119, 111, 114, 108, 100] \<and>
   Written (part (snd (attempt 15 (answering ok_response) 0 example_worker))) = 11 \<and>
   Stop (part (snd (attempt 15 (answering ok_response) 0 example_worker))) = 10 \<and>
   fst (attempt 15 (answering ok_response) 0 second_worker) = (False, None) \<and>
   Skip (part (snd (attempt 15 (answering ok_response) 0 second_worker))) \<and>
   fst (attempt 15 (answering (ok_response\<lparr>resp_StatusCode := 404, resp_Status := ''404 Not Found''\<rparr>)) 0
          example_worker) =
     (False, Some (Fundamental ''unexpected status: %s'' [S ''404 Not Found'']))"
proof -
  let ?hello = "[104, 101, 108, 108, 111, 32, 119, 111, 114, 108, 100] :: byte list"
  have h1: "0 \<le> maxTry (part example_worker)"
    by (simp add: example_worker_def opened_def example_part_def)
  have h2: "\<not> isDone (part example_worker)"
    by (simp add: example_worker_def opened_def example_part_def isDone_def word_sless_alt)
  have g1: "0 \<le> maxTry (part second_worker)"
    by (simp add: second_worker_def opened_def second_part_def example_part_def)
  have g2: "\<not> isDone (part second_worker)"
    by (simp add: second_worker_def opened_def second_part_def example_part_def isDone_def word_sless_alt)
  have h3: "do_result ((\<lambda>k. answering ok_response) 0) = Inr ok_response"
    by (simp add: answering_def)
  have h4: "do_result ((\<lambda>k. answering (ok_response\<lparr>resp_StatusCode := 404, resp_Status := ''404 Not Found''\<rparr>)) 0) =
      Inr (ok_response\<lparr>resp_StatusCode := 404, resp_Status := ''404 Not Found''\<rparr>)"
    by (simp add: answering_def)
  have o: "order (part example_worker) = 0" "resp_StatusCode ok_response = 200"
    "resp_ContentLength ok_response = 11" "order (part second_worker) \<noteq> 0"
    by (simp_all add: example_worker_def second_worker_def opened_def second_part_def
        example_part_def ok_response_def)
  have f: "fpart example_worker = [1, 2, 3]"
    by (simp add: example_worker_def opened_def example_download_def)
  have b: "resp_Body ok_response = Some [(?hello, EOF)] \<and>
      (\<forall>a\<in>set (timer_active ((\<lambda>k. answering ok_response) 0)). a) \<and>
      length ?hello div bufSize < length (timer_active ((\<lambda>k. answering ok_response) 0))"
    by (simp add: ok_response_def answering_def bufSize_def)
  from status_200_and_unexpected[OF h1 h2 h3, of 15 "\<lambda>k. False"] o
  have a: "on_status ok_response (issue 15 0 example_worker) =
     (None, (issue 15 0 example_worker)\<lparr>total_w := 11,
        part := (part (issue 15 0 example_worker))\<lparr>Stop := 10, Written := 0\<rparr>\<rparr>)"
    by (simp add: Let_def)
  from status_200_and_unexpected[OF h1 h2 h3, of 15 "\<lambda>k. False", THEN conjunct2, THEN conjunct2, THEN conjunct2,
      THEN mp, OF conjI[OF o(2) o(1)], THEN conjunct2, THEN spec, THEN mp, OF b] o(3) f
  have w: "fst (attempt 15 (answering ok_response) 0 example_worker) = (False, None) \<and>
      fpart (snd (attempt 15 (answering ok_response) 0 example_worker)) =
        [1, 2, 3, 104, 101, 108, 108, 111, 32, 119, 111, 114, 108, 100] \<and>
      Written (part (snd (attempt 15 (answering ok_response) 0 example_worker))) = 11 \<and>
      Stop (part (snd (attempt 15 (answering ok_response) 0 example_worker))) = 10"
    by (simp add: word_sle_eq)
  from status_200_and_unexpected[OF g1 g2 h3, of 15 "\<lambda>k. False"] o
  have s: "fst (attempt 15 (answering ok_response) 0 second_worker) = (False, None) \<and>
     Skip (part (snd (attempt 15 (answering ok_response) 0 second_worker)))"
    by simp
  from status_200_and_unexpected[OF h1 h2 h4, of 15 "\<lambda>k. False"]
  have c: "fst (attempt 15 (answering (ok_response\<lparr>resp_StatusCode := 404, resp_Status := ''404 Not Found''\<rparr>)) 0
          example_worker) =
     (False, Some (Fundamental ''unexpected status: %s'' [S ''404 Not Found'']))"
    by (simp add: ok_response_def)
  from a w f s c show ?thesis by simp
qed

lemma sint_sub_in_range:
  fixes a b :: int64
  assumes "- (2 ^ 63) \<le> sint a - sint b" "sint a - sint b < 2 ^ 63"
  shows "sint (a - b) = sint a - sint b"
proof -
  have "sint (a - b) = signed_take_bit 63 (sint a - sint b)"
    by (simp add: sint_word_ariths)
  also have "\<dots> = sint a - sint b"
    using assms by (intro signed_take_bit_int_eq_self) auto
  finally show ?thesis .
qed

section \<open>Part workers: parts that are done\<close>

lemma download_done:
  assumes "isDone p" "0 \<le> maxTry p" "open_error denv = None"
  shows "download denv timeout p = Some (None, (opened denv p)\<lparr>removed := Skip p\<rparr>)"
proof -
  have "attempt timeout (attempts denv 0) 0 (opened denv p) = ((False, None), opened denv p)"
    using assms(1,2) by (simp add: attempt_def opened_def)
  then have "Retry (canceled denv) (\<lambda>k. attempt timeout (attempts denv k) k) 0 (opened denv p) =
      Some (None, opened denv p)"
    by (rule Retry_stop)
  with assms(3) show ?thesis
    by (simp add: download_def WithMessage_nil_def opened_def)
qed

lemma Retry_calls:
  "calls cn fn count s n = Some (k, s') \<Longrightarrow> Retry cn fn count s = Retry cn fn k s'"
proof (induction n arbitrary: count s)
  case 0
  then show ?case by simp
next
  case (Suc n)
  obtain retry err s1 where f: "fn count s = ((retry, err), s1)"
    by (cases "fn count s") auto
  with Suc.prems have r: "retry" "\<not> cn count" and c: "calls cn fn (count + 1) s1 n = Some (k, s')"
    by (auto split: if_splits)
  from Suc.IH[OF c] Retry_again[of fn count s err s1 cn] f r show ?case by simp
qed

lemma isDone_add_elapsed: "isDone (part (snd (add_elapsed d r))) = isDone (part (snd r))"
  by (cases r) (simp add: add_elapsed_def isDone_def)

lemma isDone_issue: "isDone (part (issue timeout count w)) = isDone (part w)"
  by (simp add: issue_def Let_def flash_def isDone_def)

lemma request_retry_not_done:
  assumes "request timeout env count w = ((True, err), w')" "\<not> isDone (part w)"
  shows "\<not> isDone (part w')"
proof (cases "do_result env")
  case (Inl e)
  with assms(1) have "w' = issue timeout count w" by (simp add: request_def)
  with assms(2) show ?thesis by (simp add: isDone_issue)
next
  case (Inr resp)
  obtain o3 w3 where os: "on_status resp (issue timeout count w) = (o3, w3)"
    by (cases "on_status resp (issue timeout count w)") auto
  show ?thesis
  proof (cases o3)
    case (Some r)
    with assms(1) Inr os have "r = (True, err)" by (simp add: request_def)
    with os Some show ?thesis
      by (auto simp: on_status_def Let_def split: if_splits)
  next
    case None
    show ?thesis
    proof (cases "resp_Body resp")
      case None
      with assms(1) Inr os \<open>o3 = None\<close> show ?thesis by (simp add: request_def)
    next
      case (Some b)
      obtain e1 b1 w1 where st: "stream (timer_active env) b bufSize [] None w3 = (e1, b1, w1)"
        by (cases "stream (timer_active env) b bufSize [] None w3") auto
      with assms(1) Inr os \<open>o3 = None\<close> Some have "finish (e1, b1, w1) = ((True, err), w')"
        by (simp add: request_def)
      then show ?thesis
        by (auto simp: finish_def Let_def split: if_splits)
    qed
  qed
qed

text \<open>The callback asks for a retry only for a part that is not done.\<close>

lemma retry_not_done:
  assumes "attempt timeout env count w = ((True, err), w')"
  shows "\<not> isDone (part w')"
proof -
  from assms have g: "count \<le> maxTry (part w)" "\<not> isDone (part w)"
    by (auto simp: attempt_def split: if_splits)
  obtain r w1 where rq: "request timeout env count w = (r, w1)"
    by (cases "request timeout env count w") auto
  with assms g have "r = (True, err)" and w': "w' = snd (add_elapsed (since env) (r, w1))"
    by (simp_all add: attempt_def add_elapsed_def)
  with rq request_retry_not_done[OF _ g(2)] have "\<not> isDone (part w1)" by simp
  with w' show ?thesis by (simp add: isDone_add_elapsed)
qed

lemma calls_not_done:
  "calls cn (\<lambda>k. attempt timeout (envs k) k) count w0 n = Some (k, w) \<Longrightarrow> 0 < n \<Longrightarrow>
   \<not> isDone (part w)"
proof (induction n arbitrary: count w0)
  case 0
  then show ?case by simp
next
  case (Suc n)
  obtain retry err w1 where f: "attempt timeout (envs count) count w0 = ((retry, err), w1)"
    by (cases "attempt timeout (envs count) count w0") auto
  with Suc.prems have r: "retry" and c: "calls cn (\<lambda>k. attempt timeout (envs k) k) (count + 1) w1 n = Some (k, w)"
    by (auto split: if_splits)
  show ?case
  proof (cases n)
    case 0
    with c have "w = w1" by simp
    with f r retry_not_done[of timeout "envs count" count w0 err w1] show ?thesis by simp
  next
    case (Suc m)
    with Suc.IH[OF c] show ?thesis by simp
  qed
qed

lemma calls_done:
  assumes "calls cn (\<lambda>k. attempt timeout (envs k) k) 0 w0 n = Some (k, w)"
    and "0 \<le> maxTry (part w0) \<or> \<not> isDone (part w0)"
    and "isDone (part w)"
  shows "n = 0 \<and> k = 0 \<and> w = w0 \<and> attempt timeout (envs k) k w = ((False, None), w)"
proof -
  from calls_not_done[OF assms(1)] assms(3) have n: "n = 0" by auto
  with assms(1) have kw: "k = 0" "w = w0" by simp_all
  with assms(2,3) have "0 \<le> maxTry (part w)" by auto
  with kw assms(3) n show ?thesis by (simp add: attempt_def)
qed

lemma start_workers_not_done:
  "start_workers wd opts i ps = (ps', errs, evs) \<Longrightarrow> StartWorker j \<in> set evs \<Longrightarrow>
   i \<le> j \<and> j - i < length ps \<and> \<not> isDone (ps ! (j - i))"
proof (induction ps arbitrary: i ps' errs evs)
  case Nil
  then show ?case by simp
next
  case (Cons p ps)
  obtain ps1 errs1 evs1 where r: "start_workers wd opts (i + 1) ps = (ps1, errs1, evs1)"
    by (cases "start_workers wd opts (i + 1) ps") auto
  show ?case
  proof (cases "StartWorker j \<in> set evs1")
    case True
    from Cons.IH[OF r True] have "i + 1 \<le> j" "j - (i + 1) < length ps" "\<not> isDone (ps ! (j - (i + 1)))"
      by auto
    moreover from \<open>i + 1 \<le> j\<close> have "j - i = Suc (j - (i + 1))" by simp
    ultimately show ?thesis by simp
  next
    case False
    with Cons.prems r have "\<not> isDone p \<and> j = i"
      by (auto split: if_splits prod.splits)
    then show ?thesis by simp
  qed
qed

text \<open>
  C6. The done predicate holds iff \<open>Skip\<close> is set or \<open>Written > Stop - Start\<close>, in the
  wrapping \<open>int64\<close> arithmetic of the code, and also over the integers whenever
  \<open>Stop - Start\<close> does not overflow. The retry callback, called on a part that is done with a
  count within the budget, returns success and leaves the state as it is, so it issues no
  request. Every call that the retry loop of a download makes on a part that is done is of
  that kind, and is the first call of the loop: a later call follows a call that asked for a
  retry, which the callback does only for a part that is not done. This holds for every
  download whose budget is not negative, as for \<open>maxTry = int(MaxRetry)\<close> with a \<open>MaxRetry\<close>
  below \<open>2^63\<close>, and for every download of a part that is not done at the start, which are
  the only ones \<open>Run\<close> starts. A download of a part that is done, with a budget that is not
  negative, returns without a request, and with success when the file could be opened.
\<close>

theorem done_part:
  "(isDone p \<longleftrightarrow> Skip p \<or> Stop p - Start p <s Written p) \<and>
   (- (2 ^ 63) \<le> sint (Stop p) - sint (Start p) \<and> sint (Stop p) - sint (Start p) < 2 ^ 63 \<longrightarrow>
      (isDone p \<longleftrightarrow> Skip p \<or> sint (Written p) > sint (Stop p) - sint (Start p))) \<and>
   (isDone (part w) \<and> count \<le> maxTry (part w) \<longrightarrow>
      attempt timeout env count w = ((False, None), w)) \<and>
   (calls cn (\<lambda>k. attempt timeout (envs k) k) 0 w0 n = Some (k, w) \<and> isDone (part w) \<and>
    (0 \<le> maxTry (part w0) \<or> \<not> isDone (part w0)) \<longrightarrow>
      k \<le> maxTry (part w) \<and> attempt timeout (envs k) k w = ((False, None), w) \<and>
      requests (snd (attempt timeout (envs k) k w)) = requests w0) \<and>
   (attempt timeout env count w = ((True, err), w') \<longrightarrow> \<not> isDone (part w')) \<and>
   (start_workers wd opts i ps = (ps', errs, evs) \<and> StartWorker j \<in> set evs \<longrightarrow>
      i \<le> j \<and> j - i < length ps \<and> \<not> isDone (ps ! (j - i))) \<and>
   (isDone p \<and> 0 \<le> maxTry p \<longrightarrow>
      (\<exists>err w'. download denv timeout p = Some (err, w') \<and> requests w' = [] \<and>
         (open_error denv = None \<longrightarrow> err = None)))"
proof (intro conjI impI; (elim conjE)?)
  show "isDone p \<longleftrightarrow> Skip p \<or> Stop p - Start p <s Written p" by (simp add: isDone_def)
next
  assume "- (2 ^ 63) \<le> sint (Stop p) - sint (Start p)" "sint (Stop p) - sint (Start p) < 2 ^ 63"
  from sint_sub_in_range[OF this]
  show "isDone p \<longleftrightarrow> Skip p \<or> sint (Written p) > sint (Stop p) - sint (Start p)"
    by (simp add: isDone_def word_sless_alt)
next
  assume "isDone (part w)" "count \<le> maxTry (part w)"
  then show "attempt timeout env count w = ((False, None), w)" by (simp add: attempt_def)
next
  assume a: "calls cn (\<lambda>k. attempt timeout (envs k) k) 0 w0 n = Some (k, w)" "isDone (part w)"
    "0 \<le> maxTry (part w0) \<or> \<not> isDone (part w0)"
  note cd = calls_done[OF a(1) a(3) a(2)]
  from cd have r: "n = 0" "k = 0" "w = w0" by simp_all
  from cd have r4: "attempt timeout (envs k) k w = ((False, None), w)" by (elim conjE)
  from r a(2,3) show "k \<le> maxTry (part w)" by auto
  from r4 show "attempt timeout (envs k) k w = ((False, None), w)" .
  from r4 r(3) show "requests (snd (attempt timeout (envs k) k w)) = requests w0" by simp
next
  assume "attempt timeout env count w = ((True, err), w')"
  then show "\<not> isDone (part w')" by (rule retry_not_done)
next
  assume a: "start_workers wd opts i ps = (ps', errs, evs)" "StartWorker j \<in> set evs"
  from start_workers_not_done[OF a]
  show "i \<le> j" "j - i < length ps" "\<not> isDone (ps ! (j - i))" by simp_all
next
  assume a: "isDone p" "0 \<le> maxTry p"
  show "\<exists>err w'. download denv timeout p = Some (err, w') \<and> requests w' = [] \<and>
         (open_error denv = None \<longrightarrow> err = None)"
  proof (cases "open_error denv")
    case None
    from download_done[OF a None, of timeout] None show ?thesis by (simp add: opened_def)
  next
    case (Some e)
    then show ?thesis by (simp add: download_def not_opened_def opened_def)
  qed
qed

theorem done_part_witness:
  "isDone (part done_worker) \<and>
   sint (Stop (part done_worker)) - sint (Start (part done_worker)) < sint (Written (part done_worker)) \<and>
   attempt 15 unreachable 1 done_worker = ((False, None), done_worker) \<and>
   calls (\<lambda>k. False) (\<lambda>k. attempt 15 unreachable k) 0 done_worker 0 = Some (0, done_worker) \<and>
   attempt 15 unreachable 0 done_worker = ((False, None), done_worker) \<and>
   fst (attempt 15 unreachable 0 example_worker) =
     (True, Some (UrlError True ''dial tcp: i/o timeout'')) \<and>
   \<not> isDone (part (snd (attempt 15 unreachable 0 example_worker))) \<and>
   snd (snd (start_workers plain_world default_options 0 [part done_worker, example_part])) =
     [StartWorker 1] \<and>
   \<not> isDone ([part done_worker, example_part] ! 1) \<and>
   (\<exists>w'. download (example_download unreachable) 15 (part done_worker) = Some (None, w') \<and>
      requests w' = [])"
proof -
  have d: "isDone (part done_worker)"
    by (simp add: done_worker_def example_worker_def opened_def example_part_def isDone_def word_sless_alt)
  have m: "1 \<le> maxTry (part done_worker)" "0 \<le> maxTry (part done_worker)"
    by (simp_all add: done_worker_def example_worker_def opened_def example_part_def)
  have r: "- (2 ^ 63) \<le> sint (Stop (part done_worker)) - sint (Start (part done_worker)) \<and>
      sint (Stop (part done_worker)) - sint (Start (part done_worker)) < 2 ^ 63"
    and k: "\<not> Skip (part done_worker)"
    and o: "open_error (example_download unreachable) = None"
    by (simp_all add: done_worker_def example_worker_def opened_def example_part_def example_download_def)
  from done_part[where p = "part done_worker", THEN conjunct2, THEN conjunct1, THEN mp, OF r] d k
  have a: "sint (Stop (part done_worker)) - sint (Start (part done_worker)) < sint (Written (part done_worker))"
    by simp
  from done_part[where w = done_worker and count = 1 and timeout = 15 and env = unreachable,
      THEN conjunct2, THEN conjunct2, THEN conjunct1, THEN mp, OF conjI[OF d m(1)]]
  have b: "attempt 15 unreachable 1 done_worker = ((False, None), done_worker)" .
  have c0: "calls (\<lambda>k. False) (\<lambda>k. attempt 15 unreachable k) 0 done_worker 0 = Some (0, done_worker)"
    by simp
  have s0: "0 \<le> maxTry (part done_worker) \<or> \<not> isDone (part done_worker)" using m(2) by simp
  from done_part[where w0 = done_worker and cn = "\<lambda>k. False" and envs = "\<lambda>k. unreachable" and n = 0
      and k = 0 and w = done_worker and timeout = 15,
      THEN conjunct2, THEN conjunct2, THEN conjunct2, THEN conjunct1, THEN mp,
      OF conjI[OF c0 conjI[OF d s0]]]
  have c: "attempt 15 unreachable 0 done_worker = ((False, None), done_worker)" by simp
  have f: "fst (attempt 15 unreachable 0 example_worker) =
     (True, Some (UrlError True ''dial tcp: i/o timeout''))"
    by code_simp
  then have f': "attempt 15 unreachable 0 example_worker =
     ((True, Some (UrlError True ''dial tcp: i/o timeout'')), snd (attempt 15 unreachable 0 example_worker))"
    by (simp add: prod_eq_iff)
  from done_part[THEN conjunct2, THEN conjunct2, THEN conjunct2, THEN conjunct2, THEN conjunct1,
      THEN mp, OF f']
  have e: "\<not> isDone (part (snd (attempt 15 unreachable 0 example_worker)))" .
  let ?sw = "start_workers plain_world default_options 0 [part done_worker, example_part]"
  have sw: "snd (snd ?sw) = [StartWorker 1]" by code_simp
  have sw': "?sw = (fst ?sw, fst (snd ?sw), snd (snd ?sw))" by simp
  have sj: "StartWorker 1 \<in> set (snd (snd ?sw))" by (subst sw) simp
  from done_part[THEN conjunct2, THEN conjunct2, THEN conjunct2, THEN conjunct2, THEN conjunct2,
      THEN conjunct1, THEN mp, OF conjI[OF sw' sj]]
  have g: "\<not> isDone ([part done_worker, example_part] ! 1)" by simp
  from done_part[where p = "part done_worker" and denv = "example_download unreachable" and timeout = 15,
      THEN conjunct2, THEN conjunct2, THEN conjunct2, THEN conjunct2, THEN conjunct2,
      THEN conjunct2, THEN mp, OF conjI[OF d m(2)]] o
  have h: "\<exists>w'. download (example_download unreachable) 15 (part done_worker) = Some (None, w') \<and>
      requests w' = []"
    by auto
  from d a b c0 c f e sw g h show ?thesis by blast
qed

section \<open>Part workers: the retry budget\<close>

lemma sint_le_uint': "sint (x :: uint) \<le> uint x"
proof -
  have "- (2 ^ 63) \<le> uint x"
    by (rule order_trans[of _ 0]) simp_all
  then have "signed_take_bit 63 (uint x) \<le> uint x"
    by (simp add: signed_take_bit_int_less_eq_self_iff)
  then show ?thesis by (simp add: sint_uint)
qed

lemma nat_sint_le: "nat (sint (x :: uint) + 1) \<le> unat x + 1"
  using sint_le_uint'[of x] by (simp add: nat_le_iff)

lemma download_opened:
  assumes "open_error denv = None"
  shows "\<exists>e w. grows (opened denv p) w \<and> length (requests w) \<le> nat (maxTry p + 1) \<and>
     download denv timeout p =
       Some (WithMessage_nil e (name p),
             (if e = Some ErrGiveUp then flash ''give up!'' True w else w)
               \<lparr>removed := Skip (part w)\<rparr>)"
proof -
  from Retry_attempt[of "canceled denv" timeout "attempts denv" 0 "opened denv p"]
  obtain e w where r: "Retry (canceled denv) (\<lambda>k. attempt timeout (attempts denv k) k) 0 (opened denv p) = Some (e, w)"
    and g: "grows (opened denv p) w"
    and l: "length (requests w) \<le> length (requests (opened denv p)) + nat (maxTry (part (opened denv p)) + 1 - 0)"
    by blast
  from l have l': "length (requests w) \<le> nat (maxTry p + 1)" by (simp add: opened_def)
  have "download denv timeout p =
       Some (WithMessage_nil e (name p),
             (if e = Some ErrGiveUp then flash ''give up!'' True w else w)
               \<lparr>removed := Skip (part w)\<rparr>)"
    using assms r by (simp add: download_def Let_def flash_def)
  with g l' show ?thesis by blast
qed

lemma give_up_flashed:
  assumes "open_error denv = None" "download denv timeout p = Some (Some (WithMessage ErrGiveUp (name p)), w')"
  shows "flashed w' \<noteq> [] \<and> last (flashed w') = \<lparr>msg = ''give up!'', final = True\<rparr>"
proof -
  from download_opened[OF assms(1), of p timeout] obtain e w where
    d: "download denv timeout p =
       Some (WithMessage_nil e (name p),
             (if e = Some ErrGiveUp then flash ''give up!'' True w else w)
               \<lparr>removed := Skip (part w)\<rparr>)"
    by blast
  with assms(2) have e: "WithMessage_nil e (name p) = Some (WithMessage ErrGiveUp (name p))"
    and w': "w' = (if e = Some ErrGiveUp then flash ''give up!'' True w else w)\<lparr>removed := Skip (part w)\<rparr>"
    by simp_all
  from e have "e = Some ErrGiveUp" by (cases e) (simp_all add: WithMessage_nil_def)
  with w' show ?thesis by (simp add: flash_def)
qed

text \<open>
  C7. The retry callback called with a count greater than \<open>maxTry\<close> returns \<open>ErrGiveUp\<close>
  and leaves the state as it is (no request), and the retry loop ends with that error.
  Every download returns, having issued at most \<open>maxTry + 1\<close> requests, which is at most
  \<open>MaxRetry + 1\<close> when \<open>maxTry\<close> is \<open>int(MaxRetry)\<close>; and when the download of an opened
  file returns \<open>ErrGiveUp\<close> (with the part's name as message), the last message flashed is
  the final message \<open>give up!\<close>.
\<close>

theorem at_most_MaxRetry:
  "(count > maxTry (part w) \<longrightarrow>
      attempt timeout env count w = ((False, Some ErrGiveUp), w) \<and>
      Retry cn (\<lambda>k. attempt timeout (envs k) k) count w = Some (Some ErrGiveUp, w)) \<and>
   (\<exists>err w'. download denv timeout p = Some (err, w') \<and>
      length (requests w') \<le> nat (maxTry p + 1) \<and>
      (maxTry p = sint (MaxRetry :: uint) \<longrightarrow> length (requests w') \<le> unat MaxRetry + 1) \<and>
      (open_error denv = None \<and> err = Some (WithMessage ErrGiveUp (name p)) \<longrightarrow>
         flashed w' \<noteq> [] \<and> last (flashed w') = \<lparr>msg = ''give up!'', final = True\<rparr>))"
proof (intro conjI impI)
  assume "count > maxTry (part w)"
  then show "attempt timeout env count w = ((False, Some ErrGiveUp), w)"
    by (rule attempt_over)
  then show "Retry cn (\<lambda>k. attempt timeout (envs k) k) count w = Some (Some ErrGiveUp, w)"
    using \<open>count > maxTry (part w)\<close> by (simp add: attempt_over Retry_stop)
next
  obtain err w' where d: "download denv timeout p = Some (err, w')"
    and l: "length (requests w') \<le> nat (maxTry p + 1)"
    using download_total[of denv timeout p] by blast
  have m: "maxTry p = sint MaxRetry \<longrightarrow> length (requests w') \<le> unat MaxRetry + 1"
  proof
    assume "maxTry p = sint MaxRetry"
    with l have "length (requests w') \<le> nat (sint MaxRetry + 1)" by simp
    also have "\<dots> \<le> unat MaxRetry + 1" by (rule nat_sint_le)
    finally show "length (requests w') \<le> unat MaxRetry + 1" .
  qed
  have g: "open_error denv = None \<and> err = Some (WithMessage ErrGiveUp (name p)) \<longrightarrow>
         flashed w' \<noteq> [] \<and> last (flashed w') = \<lparr>msg = ''give up!'', final = True\<rparr>"
    using d give_up_flashed[of denv timeout p w'] by simp
  show "\<exists>err w'. download denv timeout p = Some (err, w') \<and>
      length (requests w') \<le> nat (maxTry p + 1) \<and>
      (maxTry p = sint MaxRetry \<longrightarrow> length (requests w') \<le> unat MaxRetry + 1) \<and>
      (open_error denv = None \<and> err = Some (WithMessage ErrGiveUp (name p)) \<longrightarrow>
         flashed w' \<noteq> [] \<and> last (flashed w') = \<lparr>msg = ''give up!'', final = True\<rparr>)"
    using d l m g by (intro exI[of _ err] exI[of _ w']) simp
qed


theorem at_most_MaxRetry_witness:
  "maxTry (part example_worker) < 3 \<and>
   attempt 15 unreachable 3 example_worker = ((False, Some ErrGiveUp), example_worker) \<and>
   Retry (\<lambda>k. False) (\<lambda>k. attempt 15 unreachable k) 3 example_worker =
     Some (Some ErrGiveUp, example_worker) \<and>
   (\<exists>w'. download (example_download unreachable) 15 example_part =
       Some (Some (WithMessage ErrGiveUp (name example_part)), w') \<and>
     length (requests w') \<le> 3 \<and>
     last (flashed w') = \<lparr>msg = ''give up!'', final = True\<rparr>)"
proof -
  have h: "maxTry (part example_worker) < 3"
    by (simp add: example_worker_def opened_def example_part_def)
  note t = at_most_MaxRetry[of example_worker 3 15 unreachable "\<lambda>k. False" "\<lambda>k. unreachable"
      "example_download unreachable" example_part 2]
  from t[THEN conjunct1, THEN mp, OF h]
  have a: "attempt 15 unreachable 3 example_worker = ((False, Some ErrGiveUp), example_worker) \<and>
   Retry (\<lambda>k. False) (\<lambda>k. attempt 15 unreachable k) 3 example_worker =
     Some (Some ErrGiveUp, example_worker)" .
  from t[THEN conjunct2] obtain err w' where
    d: "download (example_download unreachable) 15 example_part = Some (err, w')"
    and l: "maxTry example_part = sint (2 :: uint) \<longrightarrow> length (requests w') \<le> unat (2 :: uint) + 1"
    and g: "open_error (example_download unreachable) = None \<and>
        err = Some (WithMessage ErrGiveUp (name example_part)) \<longrightarrow>
        flashed w' \<noteq> [] \<and> last (flashed w') = \<lparr>msg = ''give up!'', final = True\<rparr>"
    by blast
  have e: "map_option fst (download (example_download unreachable) 15 example_part) =
      Some (Some (WithMessage ErrGiveUp (name example_part)))"
    by code_simp
  with d have err: "err = Some (WithMessage ErrGiveUp (name example_part))" by simp
  have o: "open_error (example_download unreachable) = None" "maxTry example_part = sint (2 :: uint)"
    by (simp_all add: example_download_def example_part_def)
  from l o have l': "length (requests w') \<le> 3" by simp
  from g o err have g': "last (flashed w') = \<lparr>msg = ''give up!'', final = True\<rparr>" by simp
  from d err l' g' have b: "\<exists>w'. download (example_download unreachable) 15 example_part =
       Some (Some (WithMessage ErrGiveUp (name example_part)), w') \<and>
     length (requests w') \<le> 3 \<and>
     last (flashed w') = \<lparr>msg = ''give up!'', final = True\<rparr>"
    by blast
  from h a b show ?thesis by blast
qed

section \<open>Part workers: three downloads\<close>

text \<open>
  An unreachable server with \<open>maxTry = 2\<close>: three requests, then \<open>ErrGiveUp\<close> after the
  final message.
\<close>

lemma download_gives_up:
  "map_option fst (download (example_download unreachable) 15 example_part) =
     Some (Some (WithMessage ErrGiveUp ''P01'')) \<and>
   map_option (\<lambda>r. requests (snd r)) (download (example_download unreachable) 15 example_part) =
     Some [Bytes 0 10, Bytes 0 10, Bytes 0 10] \<and>
   map_option (\<lambda>r. last (flashed (snd r))) (download (example_download unreachable) 15 example_part) =
     Some \<lparr>msg = ''give up!'', final = True\<rparr>"
  by code_simp

text \<open>
  A connection that breaks after three bytes: the second request asks for the rest, and the
  file holds the whole body.
\<close>

lemma download_resumes_after_failure:
  "map_option fst (download partial_world 15 example_part) = Some None \<and>
   map_option (\<lambda>r. requests (snd r)) (download partial_world 15 example_part) =
     Some [Bytes 0 10, Bytes 3 10] \<and>
   map_option (\<lambda>r. fpart (snd r)) (download partial_world 15 example_part) =
     Some [104, 101, 108, 108, 111, 32, 119, 111, 114, 108, 100] \<and>
   map_option (\<lambda>r. Written (part (snd r))) (download partial_world 15 example_part) = Some 11"
  by code_simp

text \<open>
  A server that ignores \<open>Range\<close>: the worker of the second part sets \<open>Skip\<close>, returns
  success after one request and removes its file.
\<close>

lemma download_skips_on_200:
  "map_option fst (download (example_download (answering ok_response)) 15 second_part) = Some None \<and>
   map_option (\<lambda>r. Skip (part (snd r))) (download (example_download (answering ok_response)) 15 second_part) =
     Some True \<and>
   map_option (\<lambda>r. removed (snd r)) (download (example_download (answering ok_response)) 15 second_part) =
     Some True \<and>
   map_option (\<lambda>r. length (requests (snd r))) (download (example_download (answering ok_response)) 15 second_part) =
     Some 1"
  by code_simp

section \<open>Part workers: the per-attempt deadline\<close>

lemma sint_of_int_small:
  assumes "0 \<le> x" "x < 2 ^ 63"
  shows "sint (word_of_int x :: 64 word) = x"
proof -
  have "signed_take_bit 63 x = x"
    using assms by (intro signed_take_bit_int_eq_self) auto
  then show ?thesis by (simp add: sint_sbintrunc')
qed

lemma scaled_as_int:
  "(push_bit k 1 * timeout) * Second = (word_of_int (2 ^ k * uint timeout * 1000000000) :: 64 word)"
  by (simp add: Second_def push_bit_eq_mult)

lemma ctxTimeout_in_range:
  assumes "0 < count" "uint timeout * 2 ^ nat (count - 1) * 1000000000 < 2 ^ 63"
  shows "sint (ctxTimeout timeout count) =
           min (uint timeout * 2 ^ nat (count - 1) * 1000000000) 600000000000"
proof -
  let ?x = "2 ^ nat (count - 1) * uint timeout * 1000000000"
  have x: "0 \<le> ?x" "?x < 2 ^ 63" using assms(2) by (simp_all add: mult.commute)
  have s: "sint ((push_bit (nat (count - 1)) 1 * timeout) * Second) = ?x"
    unfolding scaled_as_int using x by (rule sint_of_int_small)
  have b: "sint bound = 600000000000" by (simp add: bound_def Second_def)
  show ?thesis
    using assms(1) s b
    by (simp add: ctxTimeout_def Let_def word_sless_alt min_def mult.commute)
qed

lemma ctxTimeout_first:
  assumes "uint timeout * 1000000000 < 2 ^ 63"
  shows "sint (ctxTimeout timeout 0) = uint timeout * 1000000000"
proof -
  have "timeout * Second = word_of_int (uint timeout * 1000000000)"
    by (simp add: Second_def)
  moreover have "sint (word_of_int (uint timeout * 1000000000) :: 64 word) = uint timeout * 1000000000"
    using assms by (intro sint_of_int_small) simp_all
  ultimately show ?thesis by (simp add: ctxTimeout_def)
qed

lemma deadlines_attempt:
  "count \<le> maxTry (part w) \<Longrightarrow> \<not> isDone (part w) \<Longrightarrow> do_result env = Inl e \<Longrightarrow>
   deadlines (snd (attempt timeout env count w)) = deadlines w @ [ctxTimeout timeout count]"
  by (simp add: attempt_def request_def issue_def Let_def add_elapsed_def flash_def)

text \<open>
  C8. Where nothing overflows the deadline is what the claim says (lemmas
  \<open>ctxTimeout_in_range\<close> and \<open>ctxTimeout_first\<close> above). With the default timeout of 15
  seconds the product overflows from count 31 on: count 30 is still capped at ten minutes,
  count 31 gives a negative duration, which is not above the bound and is armed as it is.
\<close>

theorem deadline_overflows:
  "sint (ctxTimeout 15 30) = 600000000000 \<and>
   sint (ctxTimeout 15 31) = - 2340616713709551616 \<and>
   map sint (deadlines (snd (attempt 15 unreachable 31 patient_worker))) = [- 2340616713709551616]"
  by code_simp

section \<open>Part workers: the segment file\<close>

text \<open>
  C10. Every write (\<open>Copy_fpart\<close>) puts the buffer at the end of the file. An attempt leaves
  the old content of the file as a prefix of the new one and does not open the file again. A
  download returns with the content found at opening as a prefix of the final content, the
  file having been opened once (not at all when \<open>os.OpenFile\<close> fails). The adoption of a
  200 response by part index 0 sets \<open>Written\<close> to 0 and leaves the file as it is.
\<close>


theorem segment_file_only_appended:
  "fpart (Copy_fpart buf w) = fpart w @ buf \<and>
   prefix (fpart w) (fpart (snd (attempt timeout env count w))) \<and>
   opens (snd (attempt timeout env count w)) = opens w \<and>
   (\<exists>err w'. download denv timeout p = Some (err, w') \<and> prefix (existing denv) (fpart w') \<and>
      opens w' = (if open_error denv = None then 1 else 0)) \<and>
   (resp_StatusCode resp = 200 \<and> order (part w) = 0 \<longrightarrow>
      fst (on_status resp w) = None \<and> Written (part (snd (on_status resp w))) = 0 \<and>
      fpart (snd (on_status resp w)) = fpart w)"
proof -
  have a: "grows w (snd (attempt timeout env count w))"
    using attempt_grows[of timeout env count w "fst (attempt timeout env count w)" "snd (attempt timeout env count w)"]
    by simp
  have d: "\<exists>err w'. download denv timeout p = Some (err, w') \<and> prefix (existing denv) (fpart w') \<and>
      opens w' = (if open_error denv = None then 1 else 0)"
    using download_total[of denv timeout p] by blast
  have s: "resp_StatusCode resp = 200 \<and> order (part w) = 0 \<longrightarrow>
      fst (on_status resp w) = None \<and> Written (part (snd (on_status resp w))) = 0 \<and>
      fpart (snd (on_status resp w)) = fpart w"
    by (simp add: on_status_def)
  from a d s show ?thesis
    by (simp add: Copy_fpart_def grows_def)
qed

theorem segment_file_only_appended_witness:
  "resp_StatusCode ok_response = 200 \<and> order (part example_worker) = 0 \<and>
   fst (on_status ok_response example_worker) = None \<and>
   Written (part (snd (on_status ok_response example_worker))) = 0 \<and>
   fpart (snd (on_status ok_response example_worker)) = [1, 2, 3]"
proof -
  have h: "resp_StatusCode ok_response = 200 \<and> order (part example_worker) = 0"
    by (simp add: ok_response_def example_worker_def opened_def example_part_def)
  have f: "fpart example_worker = [1, 2, 3]"
    by (simp add: example_worker_def opened_def example_download_def)
  from segment_file_only_appended[of "[]" example_worker 15 unreachable 0 "example_download unreachable"
      example_part ok_response, THEN conjunct2, THEN conjunct2, THEN conjunct2, THEN conjunct2, THEN mp, OF h] h f
  show ?thesis by simp
qed

section \<open>Resolver: the terminal response\<close>

lemma follow_loop_nil:
  "follow_loop wd out i userUrl r = (None, None, r') \<Longrightarrow> r \<or> i < maxRedirects \<Longrightarrow> r'"
proof (induction wd out i userUrl r rule: follow_loop.induct)
  case (1 wd out i userUrl redirected)
  from "1.prems" "1.IH" show ?case
    by (subst (asm) follow_loop.simps) (auto split: option.splits sum.splits if_splits)
qed

lemma follow_not_nil: "follow wd out userUrl \<noteq> (None, None)"
proof -
  obtain s e r where l: "follow_loop wd out 0 userUrl False = (s, e, r)"
    by (cases "follow_loop wd out 0 userUrl False") auto
  show ?thesis
  proof (cases "s = None \<and> e = None")
    case True
    with l follow_loop_nil[of wd out 0 userUrl False r] have r by (simp add: maxRedirects_def)
    with True l show ?thesis by (simp add: follow_def WithMessage_nil_def)
  next
    case False
    with l show ?thesis by (auto simp: follow_def WithMessage_nil_def split: option.splits)
  qed
qed

lemma isRedirect_iff: "isRedirect status \<longleftrightarrow> 300 \<le> status \<and> status \<le> 399"
  by (auto simp: isRedirect_def)

text \<open>On the terminal response the loop of \<open>follow\<close> ends, whatever came before.\<close>

lemma follow_loop_terminal:
  "terminal wd i userUrl = Some (u, resp) \<Longrightarrow>
   \<exists>r'. follow_loop wd out i userUrl r =
     (if resp_StatusCode resp \<noteq> 200
      then (None, Some (Fundamental ''unexpected status: %s'' [S (resp_Status resp)]), r')
      else (Some \<lparr>Location = u,
                   SuggestedFileName = (if out = [] then derived_name wd resp u else out),
                   ContentMD5 = Header_Get (resp_Header resp) ''Content-MD5'',
                   AcceptRanges = Header_Get (resp_Header resp) ''Accept-Ranges'',
                   ContentType = Header_Get (resp_Header resp) ''Content-Type'',
                   StatusCode = resp_StatusCode resp,
                   ContentLength = resp_ContentLength resp,
                   HeaderMap = None, Parts = []\<rparr>,
            resp_Close resp, r'))"
proof (induction wd out i userUrl r rule: follow_loop.induct)
  case (1 wd out i userUrl redirected)
  from "1.prems" have lt: "i < maxRedirects"
    by (subst (asm) terminal.simps) (simp split: if_splits)
  from "1.prems" lt obtain rsp where nr: "new_request wd userUrl = None"
    and cd: "client_do wd i userUrl = Inr rsp"
    by (subst (asm) terminal.simps) (auto split: option.splits sum.splits)
  show ?case
  proof (cases "isRedirect (resp_StatusCode rsp)")
    case True
    with "1.prems" lt nr cd obtain loc where loc: "resp_Location rsp = Inr loc"
      and t: "terminal wd (i + 1) loc = Some (u, resp)"
      by (subst (asm) terminal.simps) (auto simp: isRedirect_iff split: sum.splits)
    from "1.IH"[OF lt nr cd True loc t] lt nr cd True loc show ?thesis
      by (subst follow_loop.simps) simp
  next
    case False
    with lt nr cd have "terminal wd i userUrl = Some (userUrl, rsp)"
      by (subst terminal.simps) (auto simp: isRedirect_iff)
    with "1.prems" have "u = userUrl" "resp = rsp" by simp_all
    with lt nr cd False show ?thesis
      by (subst follow_loop.simps) simp
  qed
qed

lemma follow_terminal:
  assumes "terminal wd 0 userUrl = Some (u, resp)"
  shows "follow wd out userUrl =
     (if resp_StatusCode resp \<noteq> 200
      then (None, Some (WithMessage (Fundamental ''unexpected status: %s'' [S (resp_Status resp)]) ''follow''))
      else (Some \<lparr>Location = u,
                   SuggestedFileName = (if out = [] then derived_name wd resp u else out),
                   ContentMD5 = Header_Get (resp_Header resp) ''Content-MD5'',
                   AcceptRanges = Header_Get (resp_Header resp) ''Accept-Ranges'',
                   ContentType = Header_Get (resp_Header resp) ''Content-Type'',
                   StatusCode = resp_StatusCode resp,
                   ContentLength = resp_ContentLength resp,
                   HeaderMap = None, Parts = []\<rparr>,
            WithMessage_nil (resp_Close resp) ''follow''))"
proof -
  from follow_loop_terminal[OF assms, of out False] obtain r' where
    "follow_loop wd out 0 userUrl False =
     (if resp_StatusCode resp \<noteq> 200
      then (None, Some (Fundamental ''unexpected status: %s'' [S (resp_Status resp)]), r')
      else (Some \<lparr>Location = u,
                   SuggestedFileName = (if out = [] then derived_name wd resp u else out),
                   ContentMD5 = Header_Get (resp_Header resp) ''Content-MD5'',
                   AcceptRanges = Header_Get (resp_Header resp) ''Accept-Ranges'',
                   ContentType = Header_Get (resp_Header resp) ''Content-Type'',
                   StatusCode = resp_StatusCode resp,
                   ContentLength = resp_ContentLength resp,
                   HeaderMap = None, Parts = []\<rparr>,
            resp_Close resp, r'))"
    by blast
  then show ?thesis
    by (simp add: follow_def WithMessage_nil_def)
qed

text \<open>
  C5, as amended. A status is a redirect iff it lies between 300 and 399. When the resolver
  reaches a terminal response, \<open>follow\<close> fails with \<open>unexpected status\<close> (and no session)
  exactly when the status of that response is not 200; when it is 200, \<open>follow\<close> returns a
  session with the URL of that response, status 200 and the response's content length
  (together with the error of closing the body, if any).
\<close>

theorem follow_unexpected_status:
  "(isRedirect status \<longleftrightarrow> 300 \<le> status \<and> status \<le> 399) \<and>
   (terminal wd 0 userUrl = Some (u, resp) \<longrightarrow>
      (follow wd out userUrl =
         (None, Some (WithMessage (Fundamental ''unexpected status: %s'' [S (resp_Status resp)])
                        ''follow''))
       \<longleftrightarrow> resp_StatusCode resp \<noteq> 200) \<and>
      (resp_StatusCode resp = 200 \<longrightarrow>
         (\<exists>session. fst (follow wd out userUrl) = Some session \<and> Location session = u \<and>
            StatusCode session = 200 \<and> ContentLength session = resp_ContentLength resp \<and>
            snd (follow wd out userUrl) = WithMessage_nil (resp_Close resp) ''follow'')))"
  using follow_terminal[of wd userUrl u resp out]
  by (auto simp: isRedirect_iff)

theorem follow_unexpected_status_witness:
  "terminal (status_world 404 ''404 Not Found'') 0 ''http://example.com/file'' =
     Some (''http://example.com/file'', ok_response\<lparr>resp_StatusCode := 404, resp_Status := ''404 Not Found''\<rparr>) \<and>
   follow (status_world 404 ''404 Not Found'') [] ''http://example.com/file'' =
     (None, Some (WithMessage (Fundamental ''unexpected status: %s'' [S ''404 Not Found'']) ''follow'')) \<and>
   terminal plain_world 0 ''http://example.com/file'' = Some (''http://example.com/file'', ok_response) \<and>
   (\<exists>session. fst (follow plain_world [] ''http://example.com/file'') = Some session \<and>
      Location session = ''http://example.com/file'' \<and> StatusCode session = 200 \<and>
      ContentLength session = 11)"
proof -
  have t: "terminal (status_world 404 ''404 Not Found'') 0 ''http://example.com/file'' =
     Some (''http://example.com/file'', ok_response\<lparr>resp_StatusCode := 404, resp_Status := ''404 Not Found''\<rparr>)"
    by code_simp
  have t2: "terminal plain_world 0 ''http://example.com/file'' = Some (''http://example.com/file'', ok_response)"
    by code_simp
  have c: "resp_StatusCode ok_response = 200" "resp_ContentLength ok_response = 11"
    by (simp_all add: ok_response_def)
  from follow_unexpected_status[of 404 "status_world 404 ''404 Not Found''" "''http://example.com/file''"
      "''http://example.com/file''" "ok_response\<lparr>resp_StatusCode := 404, resp_Status := ''404 Not Found''\<rparr>" "[]",
      THEN conjunct2, THEN mp, OF t]
  have a: "follow (status_world 404 ''404 Not Found'') [] ''http://example.com/file'' =
     (None, Some (WithMessage (Fundamental ''unexpected status: %s'' [S ''404 Not Found'']) ''follow''))"
    by simp
  from follow_unexpected_status[of 404 plain_world "''http://example.com/file''"
      "''http://example.com/file''" ok_response "[]",
      THEN conjunct2, THEN mp, OF t2, THEN conjunct2, THEN mp, OF c(1)] c(2)
  have b: "\<exists>session. fst (follow plain_world [] ''http://example.com/file'') = Some session \<and>
      Location session = ''http://example.com/file'' \<and> StatusCode session = 200 \<and>
      ContentLength session = 11"
    by auto
  from t a t2 b show ?thesis by blast
qed

text \<open>
  The claim as stated, with 2xx in place of 200, fails: a terminal response with status 204
  makes \<open>follow\<close> fail with \<open>unexpected status\<close>.
\<close>

theorem follow_unexpected_status_counterexample:
  "terminal (status_world 204 ''204 No Content'') 0 ''http://example.com/file'' =
     Some (''http://example.com/file'', ok_response\<lparr>resp_StatusCode := 204, resp_Status := ''204 No Content''\<rparr>) \<and>
   follow (status_world 204 ''204 No Content'') [] ''http://example.com/file'' =
     (None, Some (WithMessage (Fundamental ''unexpected status: %s'' [S ''204 No Content'']) ''follow''))"
  by code_simp

section \<open>Best mirror: the first 200\<close>
















lemma bestMirror_read_error:
  "snd (scanner wd) = Some e \<Longrightarrow> bestMirror wd = ([], Some (WithMessage e ''bestMirror''))"
  by (simp add: bestMirror_def readLines_def)






text \<open>
  The run with the list of mirrors goes on with the mirror found. When \<open>bestMirror\<close> fails,
  \<open>Run\<close> returns its error as it is, also when the user has interrupted the choice.
\<close>

lemma Run_best_mirror:
  "Run_setup mirror_world =
     Returns (Inr (''http://c.example/file'', None,
                   default_options\<lparr>opt_BestMirror := True,
                     opt_HeaderMap := Some [(''User-Agent'', userAgents ''chrome'')]\<rparr>)) \<and>
   main spec_ops mirror_world = Returns 0 \<and>
   Run spec_ops late_world =
     Returns (Some (WithMessage (WithMessage DeadlineExceeded ''bestMirror'') ''run''), [],
              \<lparr>cmd_Debug = False, cmd_dlogger = True\<rparr>) \<and>
   Run spec_ops (mirror_world\<lparr>fetched := [], ctx_end := ContextCanceled\<rparr>) =
     Returns (Some (WithMessage (WithMessage ContextCanceled ''bestMirror'') ''run''), [],
              \<lparr>cmd_Debug = False, cmd_dlogger = True\<rparr>) \<and>
   main spec_ops (mirror_world\<lparr>fetched := [], ctx_end := ContextCanceled\<rparr>) = Returns 3"
  by code_simp

section \<open>Orchestrator: exit codes\<close>

lemma Exit_WithMessage: "Exit cmd (Some (WithMessage e m)) = Exit cmd (Some e)"
  by (simp add: Exit_def)

lemma Exit_run: "Exit cmd (WithMessage_nil err ''run'') = Exit cmd err"
  by (cases err) (simp_all add: WithMessage_nil_def Exit_def)

lemma Exit_flags: "Cause e = FlagsError t \<Longrightarrow> Exit cmd (Some e) = Returns (if t = ErrHelp then 0 else 2)"
  by (simp add: Exit_def)

lemma Exit_expected:
  "Cause e = ExpectedError x \<Longrightarrow> cmd_dlogger cmd \<or> \<not> cmd_Debug cmd \<Longrightarrow> Exit cmd (Some e) = Returns 1"
  by (auto simp: Exit_def)

lemma Exit_other:
  "\<forall>t. Cause e \<noteq> FlagsError t \<Longrightarrow> \<forall>x. Cause e \<noteq> ExpectedError x \<Longrightarrow>
   cmd_dlogger cmd \<or> \<not> cmd_Debug cmd \<Longrightarrow> Exit cmd (Some e) = Returns 3"
  by (cases "Cause e") (auto simp: Exit_def)

text \<open>Without the logger and with \<open>Debug\<close> set, \<open>Exit\<close> panics on every error that is not a go-flags error.\<close>

lemma Exit_nil_logger:
  "\<forall>t. Cause e \<noteq> FlagsError t \<Longrightarrow> cmd_Debug cmd \<Longrightarrow> \<not> cmd_dlogger cmd \<Longrightarrow>
   Exit cmd (Some e) = Panics ''invalid memory address or nil pointer dereference''"
  by (cases "Cause e") (auto simp: Exit_def)

lemma Run_of_setup_error:
  "Run_setup wd = Returns (Inl (err, logged)) \<Longrightarrow>
   Run ops wd = Returns (WithMessage_nil err ''run'', [],
                  \<lparr>cmd_Debug = opt_Debug (fst (parse_args wd)), cmd_dlogger = logged\<rparr>)"
  by (simp add: Run_def)

lemma Run_of_follow_error:
  assumes "Run_setup wd = Returns (Inr (userUrl, resumed, opts))"
    and "snd (follow wd (opt_OutFileName opts) userUrl) = Some e"
  shows "Run ops wd =
    Returns (Some (WithMessage (if follow_canceled wd then ExpectedError ContextCanceled else e) ''run''),
             [], \<lparr>cmd_Debug = opt_Debug (fst (parse_args wd)), cmd_dlogger = True\<rparr>)"
proof -
  obtain s where "follow wd (opt_OutFileName opts) userUrl = (s, Some e)"
    using assms(2) by (cases "follow wd (opt_OutFileName opts) userUrl") auto
  with assms(1) show ?thesis
    by (cases s) (simp_all add: Run_def Run_resolve_def WithMessage_nil_def)
qed

lemma Run_of_session:
  assumes "Run_setup wd = Returns (Inr (userUrl, resumed, opts))"
    and "follow wd (opt_OutFileName opts) userUrl = (Some session, None)"
  shows "Run ops wd =
    Returns (WithMessage_nil (fst (Run_session ops wd opts userUrl resumed session)) ''run'',
             snd (Run_session ops wd opts userUrl resumed session),
             \<lparr>cmd_Debug = opt_Debug (fst (parse_args wd)), cmd_dlogger = True\<rparr>)"
  using assms by (simp add: Run_def Run_resolve_def split: prod.splits)

text \<open>Past the setup \<open>Run\<close> returns, and the debug logger exists.\<close>

lemma Run_after_setup:
  assumes "Run_setup wd = Returns (Inr (userUrl, resumed, opts))"
  shows "\<exists>err evs. Run ops wd =
    Returns (err, evs, \<lparr>cmd_Debug = opt_Debug (fst (parse_args wd)), cmd_dlogger = True\<rparr>)"
proof -
  obtain s e where f: "follow wd (opt_OutFileName opts) userUrl = (s, e)"
    by (cases "follow wd (opt_OutFileName opts) userUrl") auto
  show ?thesis
  proof (cases e)
    case (Some er)
    with f Run_of_follow_error[OF assms, of er ops] show ?thesis by simp
  next
    case None
    with f follow_not_nil[of wd "opt_OutFileName opts" userUrl] obtain session where "s = Some session"
      by (cases s) auto
    with f None Run_of_session[OF assms, of session ops] show ?thesis by simp
  qed
qed

lemma follow_loop_redirects:
  "redirects wd i u n = Some v \<Longrightarrow> i + n \<le> maxRedirects \<Longrightarrow>
   follow_loop wd out i u r = follow_loop wd out (i + n) v (r \<or> 0 < n)"
proof (induction n arbitrary: i u r)
  case 0
  then show ?case by simp
next
  case (Suc n)
  from Suc.prems(2) have lt: "i < maxRedirects" by simp
  from Suc.prems(1) obtain resp loc where nr: "new_request wd u = None"
    and cd: "client_do wd i u = Inr resp" and rd: "isRedirect (resp_StatusCode resp)"
    and loc: "resp_Location resp = Inr loc" and rest: "redirects wd (i + 1) loc n = Some v"
    by (auto simp: isRedirect_iff split: option.splits sum.splits if_splits)
  from Suc.prems(2) have "i + 1 + n \<le> maxRedirects" by simp
  from Suc.IH[OF rest this, of True]
  have "follow_loop wd out (i + 1) loc True = follow_loop wd out (i + Suc n) v True" by simp
  with lt nr cd rd loc show ?case
    by (subst follow_loop.simps) simp
qed

lemma follow_max_redirects:
  assumes "redirects wd 0 userUrl maxRedirects = Some v"
  shows "follow wd out userUrl =
     (None, Some (WithMessage (ExpectedError
        (Fundamental ''maximum number of redirects (%d) followed'' [I 10])) ''follow''))"
proof -
  from follow_loop_redirects[OF assms, of out False]
  have "follow_loop wd out 0 userUrl False = follow_loop wd out maxRedirects v True"
    by (simp add: maxRedirects_def)
  also have "\<dots> = (None, None, True)"
    by (subst follow_loop.simps) simp
  finally show ?thesis by (simp add: follow_def WithMessage_nil_def)
qed

lemma main_of_Run: "Run ops wd = Returns (err, evs, cmd) \<Longrightarrow> main ops wd = Exit cmd err"
  by (simp add: main_def)

lemma Run_joined_canceled:
  "err0 \<noteq> None \<Longrightarrow> wait_canceled wd \<Longrightarrow>
   \<exists>e. fst (Run_joined ops wd opts userUrl session err0) = Some (ExpectedError e)"
  by (auto simp: Run_joined_def Let_def split: option.splits)

lemma Run_joined_keeps_error:
  "\<not> wait_canceled wd \<Longrightarrow>
   \<not> (opt_Parts opts \<noteq> 0 \<and>
      (totalWritten ops (actualPartsOnly ops session) = ContentLength (actualPartsOnly ops session) \<or>
       ContentLength (actualPartsOnly ops session) \<le>s 0)) \<Longrightarrow>
   fst (Run_joined ops wd opts userUrl session (Some e)) = Some e"
  by (auto simp: Run_joined_def Let_def split: option.splits)

text \<open>
  C1, as amended. The exit code that \<open>Exit\<close> gives to what \<open>Run\<close> returns (\<open>main\<close> is
  \<open>Exit\<close> applied to the result of \<open>Run\<close>):
  \<^item> 0 for a nil error and for an error whose cause is the go-flags help error, 2 for an
    error whose cause is another go-flags error;
  \<^item> for every other error, where the debug logger exists or \<open>Debug\<close> is off: 1 when the
    cause is an \<open>ExpectedError\<close>, and 3 when it is not;
  \<^item> once \<open>Run\<close> is past its setup it returns with the debug logger in place;
  \<^item> a go-flags error from the parser gives 0 when it is the help error and 2 otherwise;
    \<open>--version\<close> makes \<open>Run\<close> return nil, which gives 0; a call with no URL, no state file
    and no mirror list gives 2;
  \<^item> when \<open>follow\<close> fails and the context is cancelled, \<open>Run\<close> returns an \<open>ExpectedError\<close>
    and the code is 1; when the maximum of redirects is followed, \<open>follow\<close> returns an
    \<open>ExpectedError\<close> and the code is 1;
  \<^item> when the terminal response has a status other than 200 and the context is not
    cancelled, \<open>Run\<close> returns the error \<open>unexpected status\<close> of \<open>follow\<close> and the code is 3;
  \<^item> after the join, a worker error with a cancelled context is replaced by an
    \<open>ExpectedError\<close> and gives 1; a worker's \<open>ErrGiveUp\<close>, when the context is not cancelled
    and the parts are not concatenated, is returned as it is and gives 3.
\<close>

theorem exit_codes:
  "Exit cmd None = Returns 0 \<and>
   (Cause e = FlagsError ErrHelp \<longrightarrow> Exit cmd (Some e) = Returns 0) \<and>
   (Cause e = FlagsError t \<and> t \<noteq> ErrHelp \<longrightarrow> Exit cmd (Some e) = Returns 2) \<and>
   (Cause e = ExpectedError x \<and> (cmd_dlogger cmd \<or> \<not> cmd_Debug cmd) \<longrightarrow>
      Exit cmd (Some e) = Returns 1) \<and>
   ((\<forall>t. Cause e \<noteq> FlagsError t) \<and> (\<forall>x. Cause e \<noteq> ExpectedError x) \<and>
    (cmd_dlogger cmd \<or> \<not> cmd_Debug cmd) \<longrightarrow>
      Exit cmd (Some e) = Returns 3) \<and>
   (Run ops wd = Returns (err, evs, c) \<longrightarrow> main ops wd = Exit c err) \<and>
   (Run_setup wd = Returns (Inr (userUrl, resumed, opts')) \<longrightarrow>
      (\<exists>err evs c. Run ops wd = Returns (err, evs, c) \<and> cmd_dlogger c)) \<and>
   (snd (parse_args wd) = Inl (FlagsError t) \<longrightarrow>
      (\<exists>c. Run ops wd = Returns (Some (WithMessage (FlagsError t) ''run''), [], c)) \<and>
      main ops wd = Returns (if t = ErrHelp then 0 else 2)) \<and>
   (snd (parse_args wd) = Inr args \<and> opt_Version (fst (parse_args wd)) \<longrightarrow>
      (\<exists>c. Run ops wd = Returns (None, [], c)) \<and> main ops wd = Returns 0) \<and>
   (snd (parse_args wd) = Inr [] \<and> \<not> opt_Version (fst (parse_args wd)) \<and>
    opt_JSONFileName (fst (parse_args wd)) = [] \<and> \<not> opt_BestMirror (fst (parse_args wd)) \<longrightarrow>
      (\<exists>c. Run ops wd = Returns (Some (WithMessage (FlagsError ErrUnknown) ''run''), [], c)) \<and>
      main ops wd = Returns 2) \<and>
   (Run_setup wd = Returns (Inr (userUrl, resumed, opts')) \<and>
    snd (follow wd (opt_OutFileName opts') userUrl) = Some e \<and> follow_canceled wd \<longrightarrow>
      (\<exists>c. Run ops wd = Returns (Some (WithMessage (ExpectedError ContextCanceled) ''run''), [], c)) \<and>
      main ops wd = Returns 1) \<and>
   (Run_setup wd = Returns (Inr (userUrl, resumed, opts')) \<and>
    redirects wd 0 userUrl maxRedirects = Some v \<longrightarrow>
      follow wd (opt_OutFileName opts') userUrl =
        (None, Some (WithMessage (ExpectedError
                 (Fundamental ''maximum number of redirects (%d) followed'' [I 10])) ''follow'')) \<and>
      main ops wd = Returns 1) \<and>
   (Run_setup wd = Returns (Inr (userUrl, resumed, opts')) \<and>
    terminal wd 0 userUrl = Some (u, resp) \<and> resp_StatusCode resp \<noteq> 200 \<and>
    \<not> follow_canceled wd \<longrightarrow>
      (\<exists>c. Run ops wd =
         Returns (Some (WithMessage (WithMessage
                    (Fundamental ''unexpected status: %s'' [S (resp_Status resp)]) ''follow'') ''run''),
                  [], c)) \<and>
      main ops wd = Returns 3) \<and>
   (err0 \<noteq> None \<and> wait_canceled wd \<and> (cmd_dlogger cmd \<or> \<not> cmd_Debug cmd) \<longrightarrow>
      (\<exists>x. fst (Run_joined ops wd opts'' url session err0) = Some (ExpectedError x)) \<and>
      Exit cmd (WithMessage_nil (fst (Run_joined ops wd opts'' url session err0)) ''run'') = Returns 1) \<and>
   (\<not> wait_canceled wd \<and>
    \<not> (opt_Parts opts'' \<noteq> 0 \<and>
       (totalWritten ops (actualPartsOnly ops session) = ContentLength (actualPartsOnly ops session) \<or>
        ContentLength (actualPartsOnly ops session) \<le>s 0)) \<and>
    (cmd_dlogger cmd \<or> \<not> cmd_Debug cmd) \<longrightarrow>
      fst (Run_joined ops wd opts'' url session (Some (WithMessage ErrGiveUp nm))) =
        Some (WithMessage ErrGiveUp nm) \<and>
      Exit cmd (WithMessage_nil
              (fst (Run_joined ops wd opts'' url session (Some (WithMessage ErrGiveUp nm))))
              ''run'') = Returns 3)"
proof (intro conjI impI; (elim conjE)?)
  show "Exit cmd None = Returns 0" by (simp add: Exit_def)
next
  assume "Cause e = FlagsError ErrHelp"
  then show "Exit cmd (Some e) = Returns 0" by (simp add: Exit_flags)
next
  assume "Cause e = FlagsError t" "t \<noteq> ErrHelp"
  then show "Exit cmd (Some e) = Returns 2" by (simp add: Exit_flags)
next
  assume "Cause e = ExpectedError x" "cmd_dlogger cmd \<or> \<not> cmd_Debug cmd"
  then show "Exit cmd (Some e) = Returns 1" by (rule Exit_expected)
next
  assume "\<forall>t. Cause e \<noteq> FlagsError t" "\<forall>x. Cause e \<noteq> ExpectedError x"
    "cmd_dlogger cmd \<or> \<not> cmd_Debug cmd"
  then show "Exit cmd (Some e) = Returns 3" by (rule Exit_other)
next
  assume "Run ops wd = Returns (err, evs, c)"
  then show "main ops wd = Exit c err" by (rule main_of_Run)
next
  assume "Run_setup wd = Returns (Inr (userUrl, resumed, opts'))"
  from Run_after_setup[OF this, of ops]
  show "\<exists>err evs c. Run ops wd = Returns (err, evs, c) \<and> cmd_dlogger c" by force
next
  assume a: "snd (parse_args wd) = Inl (FlagsError t)"
  then have "Run_setup wd = Returns (Inl (Some (FlagsError t), False))"
    by (cases "parse_args wd") (simp add: Run_setup_def)
  from Run_of_setup_error[OF this, of ops]
  show "\<exists>c. Run ops wd = Returns (Some (WithMessage (FlagsError t) ''run''), [], c)"
    "main ops wd = Returns (if t = ErrHelp then 0 else 2)"
    by (simp_all add: main_def WithMessage_nil_def Exit_def)
next
  assume a: "snd (parse_args wd) = Inr args" "opt_Version (fst (parse_args wd))"
  then have "Run_setup wd = Returns (Inl (None, False))"
    by (cases "parse_args wd") (simp add: Run_setup_def)
  from Run_of_setup_error[OF this, of ops]
  show "\<exists>c. Run ops wd = Returns (None, [], c)" "main ops wd = Returns 0"
    by (simp_all add: main_def WithMessage_nil_def Exit_def)
next
  assume "snd (parse_args wd) = Inr []" "\<not> opt_Version (fst (parse_args wd))"
    "opt_JSONFileName (fst (parse_args wd)) = []" "\<not> opt_BestMirror (fst (parse_args wd))"
  then have "Run_setup wd = Returns (Inl (Some (FlagsError ErrUnknown), False))"
    by (cases "parse_args wd") (simp add: Run_setup_def)
  from Run_of_setup_error[OF this, of ops]
  show "\<exists>c. Run ops wd = Returns (Some (WithMessage (FlagsError ErrUnknown) ''run''), [], c)"
    "main ops wd = Returns 2"
    by (simp_all add: main_def WithMessage_nil_def Exit_def)
next
  assume "Run_setup wd = Returns (Inr (userUrl, resumed, opts'))"
    "snd (follow wd (opt_OutFileName opts') userUrl) = Some e" "follow_canceled wd"
  with Run_of_follow_error[of wd userUrl resumed opts' e ops]
  show "\<exists>c. Run ops wd = Returns (Some (WithMessage (ExpectedError ContextCanceled) ''run''), [], c)"
    "main ops wd = Returns 1"
    by (simp_all add: main_def Exit_def)
next
  assume a: "Run_setup wd = Returns (Inr (userUrl, resumed, opts'))"
    "redirects wd 0 userUrl maxRedirects = Some v"
  from follow_max_redirects[OF a(2), of "opt_OutFileName opts'"]
  show f: "follow wd (opt_OutFileName opts') userUrl =
        (None, Some (WithMessage (ExpectedError
                 (Fundamental ''maximum number of redirects (%d) followed'' [I 10])) ''follow''))" .
  from f Run_of_follow_error[OF a(1), of _ ops]
  show "main ops wd = Returns 1" by (simp add: main_def Exit_def)
next
  assume a: "Run_setup wd = Returns (Inr (userUrl, resumed, opts'))"
    "terminal wd 0 userUrl = Some (u, resp)" "resp_StatusCode resp \<noteq> 200"
    "\<not> follow_canceled wd"
  from follow_terminal[OF a(2), of "opt_OutFileName opts'"] a(3)
  have f: "snd (follow wd (opt_OutFileName opts') userUrl) =
      Some (WithMessage (Fundamental ''unexpected status: %s'' [S (resp_Status resp)]) ''follow'')"
    by simp
  from Run_of_follow_error[OF a(1) f, of ops] a(4)
  show "\<exists>c. Run ops wd =
         Returns (Some (WithMessage (WithMessage
                    (Fundamental ''unexpected status: %s'' [S (resp_Status resp)]) ''follow'') ''run''),
                  [], c)"
    "main ops wd = Returns 3"
    by (simp_all add: main_def Exit_def)
next
  assume a: "err0 \<noteq> None" "wait_canceled wd" and l: "cmd_dlogger cmd \<or> \<not> cmd_Debug cmd"
  from Run_joined_canceled[OF a, of ops opts'' url session]
  show "\<exists>x. fst (Run_joined ops wd opts'' url session err0) = Some (ExpectedError x)" .
  then obtain x where "fst (Run_joined ops wd opts'' url session err0) = Some (ExpectedError x)" ..
  with l show "Exit cmd (WithMessage_nil (fst (Run_joined ops wd opts'' url session err0)) ''run'') = Returns 1"
    by (simp add: Exit_run Exit_expected)
next
  assume a: "\<not> wait_canceled wd"
    "\<not> (opt_Parts opts'' \<noteq> 0 \<and>
       (totalWritten ops (actualPartsOnly ops session) = ContentLength (actualPartsOnly ops session) \<or>
        ContentLength (actualPartsOnly ops session) \<le>s 0))"
    and l: "cmd_dlogger cmd \<or> \<not> cmd_Debug cmd"
  have "Exit cmd (Some (WithMessage ErrGiveUp nm)) = Returns 3"
    using l by (intro Exit_other) (simp_all add: ErrGiveUp_def)
  with Run_joined_keeps_error[OF a, of url "WithMessage ErrGiveUp nm"]
  show "fst (Run_joined ops wd opts'' url session (Some (WithMessage ErrGiveUp nm))) =
        Some (WithMessage ErrGiveUp nm)"
    "Exit cmd (WithMessage_nil
              (fst (Run_joined ops wd opts'' url session (Some (WithMessage ErrGiveUp nm))))
              ''run'') = Returns 3"
    by (simp_all add: Exit_run)
qed


theorem exit_codes_witness:
  "Exit \<lparr>cmd_Debug = True, cmd_dlogger = False\<rparr> (Some (WithMessage (FlagsError ErrHelp) ''run'')) = Returns 0 \<and>
   Exit \<lparr>cmd_Debug = True, cmd_dlogger = False\<rparr> (Some (WithMessage (FlagsError ErrUnknown) ''run'')) = Returns 2 \<and>
   Exit \<lparr>cmd_Debug = True, cmd_dlogger = True\<rparr> (Some (WithMessage (ExpectedError ContextCanceled) ''run'')) = Returns 1 \<and>
   Exit \<lparr>cmd_Debug = False, cmd_dlogger = False\<rparr> (Some (WithMessage (OtherError ''inappropriate ioctl for device'') ''run'')) = Returns 3 \<and>
   main spec_ops plain_world = Returns 0 \<and>
   main spec_ops (plain_world\<lparr>parse_args := (default_options, Inl (FlagsError ErrHelp))\<rparr>) = Returns 0 \<and>
   main spec_ops version_world = Returns 0 \<and>
   main spec_ops usage_world = Returns 2 \<and>
   main spec_ops interrupted_world = Returns 1 \<and>
   main spec_ops redirecting_world = Returns 1 \<and>
   main spec_ops (status_world 404 ''404 Not Found'') = Returns 3 \<and>
   Exit \<lparr>cmd_Debug = False, cmd_dlogger = True\<rparr>
     (WithMessage_nil (fst (Run_joined spec_ops interrupted_world default_options
           ''http://example.com/file'' saved_session (Some (WithMessage ErrGiveUp ''P01'')))) ''run'') = Returns 1 \<and>
   Exit \<lparr>cmd_Debug = False, cmd_dlogger = True\<rparr>
     (WithMessage_nil (fst (Run_joined spec_ops plain_world default_options
           ''http://example.com/file'' saved_session (Some (WithMessage ErrGiveUp ''P01'')))) ''run'') = Returns 3"
proof -
  note c2 = exit_codes[THEN conjunct2, THEN conjunct1, THEN mp]
  note c3 = exit_codes[THEN conjunct2, THEN conjunct2, THEN conjunct1, THEN mp]
  note c4 = exit_codes[THEN conjunct2, THEN conjunct2, THEN conjunct2, THEN conjunct1, THEN mp]
  note c5 = exit_codes[THEN conjunct2, THEN conjunct2, THEN conjunct2, THEN conjunct2,
      THEN conjunct1, THEN mp]
  note c6 = exit_codes[THEN conjunct2, THEN conjunct2, THEN conjunct2, THEN conjunct2,
      THEN conjunct2, THEN conjunct1, THEN mp]
  note c7 = exit_codes[THEN conjunct2, THEN conjunct2, THEN conjunct2, THEN conjunct2,
      THEN conjunct2, THEN conjunct2, THEN conjunct1, THEN mp]
  note c8 = exit_codes[THEN conjunct2, THEN conjunct2, THEN conjunct2, THEN conjunct2,
      THEN conjunct2, THEN conjunct2, THEN conjunct2, THEN conjunct1, THEN mp]
  note c9 = exit_codes[THEN conjunct2, THEN conjunct2, THEN conjunct2, THEN conjunct2,
      THEN conjunct2, THEN conjunct2, THEN conjunct2, THEN conjunct2, THEN conjunct1, THEN mp]
  note c10 = exit_codes[THEN conjunct2, THEN conjunct2, THEN conjunct2, THEN conjunct2,
      THEN conjunct2, THEN conjunct2, THEN conjunct2, THEN conjunct2, THEN conjunct2,
      THEN conjunct1, THEN mp]
  note c11 = exit_codes[THEN conjunct2, THEN conjunct2, THEN conjunct2, THEN conjunct2,
      THEN conjunct2, THEN conjunct2, THEN conjunct2, THEN conjunct2, THEN conjunct2,
      THEN conjunct2, THEN conjunct1, THEN mp]
  note c12 = exit_codes[THEN conjunct2, THEN conjunct2, THEN conjunct2, THEN conjunct2,
      THEN conjunct2, THEN conjunct2, THEN conjunct2, THEN conjunct2, THEN conjunct2,
      THEN conjunct2, THEN conjunct2, THEN conjunct1, THEN mp]
  note c13 = exit_codes[THEN conjunct2, THEN conjunct2, THEN conjunct2, THEN conjunct2,
      THEN conjunct2, THEN conjunct2, THEN conjunct2, THEN conjunct2, THEN conjunct2,
      THEN conjunct2, THEN conjunct2, THEN conjunct2, THEN conjunct1, THEN mp]
  note c14 = exit_codes[THEN conjunct2, THEN conjunct2, THEN conjunct2, THEN conjunct2,
      THEN conjunct2, THEN conjunct2, THEN conjunct2, THEN conjunct2, THEN conjunct2,
      THEN conjunct2, THEN conjunct2, THEN conjunct2, THEN conjunct2, THEN conjunct1, THEN mp]
  note c15 = exit_codes[THEN conjunct2, THEN conjunct2, THEN conjunct2, THEN conjunct2,
      THEN conjunct2, THEN conjunct2, THEN conjunct2, THEN conjunct2, THEN conjunct2,
      THEN conjunct2, THEN conjunct2, THEN conjunct2, THEN conjunct2, THEN conjunct2, THEN mp]
  have w2: "Exit \<lparr>cmd_Debug = True, cmd_dlogger = False\<rparr> (Some (WithMessage (FlagsError ErrHelp) ''run'')) = Returns 0"
    by (rule c2) simp
  have w3: "Exit \<lparr>cmd_Debug = True, cmd_dlogger = False\<rparr> (Some (WithMessage (FlagsError ErrUnknown) ''run'')) = Returns 2"
  proof (rule c3)
    show "Cause (WithMessage (FlagsError ErrUnknown) ''run'') = FlagsError ErrUnknown \<and> ErrUnknown \<noteq> ErrHelp"
      by simp
  qed
  have w4: "Exit \<lparr>cmd_Debug = True, cmd_dlogger = True\<rparr> (Some (WithMessage (ExpectedError ContextCanceled) ''run'')) = Returns 1"
  proof (rule c4)
    show "Cause (WithMessage (ExpectedError ContextCanceled) ''run'') = ExpectedError ContextCanceled \<and>
        (cmd_dlogger \<lparr>cmd_Debug = True, cmd_dlogger = True\<rparr> \<or> \<not> cmd_Debug \<lparr>cmd_Debug = True, cmd_dlogger = True\<rparr>)"
      by simp
  qed
  have w5: "Exit \<lparr>cmd_Debug = False, cmd_dlogger = False\<rparr> (Some (WithMessage (OtherError ''inappropriate ioctl for device'') ''run'')) = Returns 3"
    by (rule c5) simp
  have r6: "Run spec_ops plain_world =
      Returns (None, [StartWorker 0, StartWorker 1, ConcatenateParts], \<lparr>cmd_Debug = False, cmd_dlogger = True\<rparr>)"
    by code_simp
  have w6: "main spec_ops plain_world = Returns 0"
    using c6[OF r6] by (simp add: Exit_def)
  have p8: "snd (parse_args (plain_world\<lparr>parse_args := (default_options, Inl (FlagsError ErrHelp))\<rparr>)) =
      Inl (FlagsError ErrHelp)"
    by simp
  have w8: "main spec_ops (plain_world\<lparr>parse_args := (default_options, Inl (FlagsError ErrHelp))\<rparr>) = Returns 0"
    using c8[OF p8, of spec_ops] by simp
  have h9: "snd (parse_args version_world) = Inr [] \<and> opt_Version (fst (parse_args version_world))"
    by (simp add: version_world_def)
  have w9: "main spec_ops version_world = Returns 0"
    using c9[OF h9, of spec_ops] by (rule conjunct2)
  have h10: "snd (parse_args usage_world) = Inr [] \<and> \<not> opt_Version (fst (parse_args usage_world)) \<and>
      opt_JSONFileName (fst (parse_args usage_world)) = [] \<and>
      \<not> opt_BestMirror (fst (parse_args usage_world))"
    by (simp add: usage_world_def default_options_def)
  have w10: "main spec_ops usage_world = Returns 2"
    using c10[OF h10] by (rule conjunct2)
  let ?opts = "default_options\<lparr>opt_HeaderMap := Some [(''User-Agent'', userAgents ''chrome'')]\<rparr>"
  have s11: "Run_setup interrupted_world = Returns (Inr (''http://example.com/file'', None, ?opts))"
    by code_simp
  have l7: "\<exists>err evs c. Run spec_ops interrupted_world = Returns (err, evs, c) \<and> cmd_dlogger c"
    using c7[OF s11] .
  have f11: "snd (follow interrupted_world (opt_OutFileName ?opts) ''http://example.com/file'') =
      Some (WithMessage (UrlError False ''context canceled'') ''follow'')"
    by code_simp
  have k11: "follow_canceled interrupted_world" "wait_canceled interrupted_world"
    by (simp_all add: interrupted_world_def)
  have w11: "main spec_ops interrupted_world = Returns 1"
    using c11[OF conjI[OF s11 conjI[OF f11 k11(1)]]] by (rule conjunct2)
  have s12: "Run_setup redirecting_world = Returns (Inr (''http://example.com/file'', None, ?opts))"
    by code_simp
  have f12: "redirects redirecting_world 0 ''http://example.com/file'' maxRedirects =
      Some ''http://example.com/next''"
    by code_simp
  have w12: "main spec_ops redirecting_world = Returns 1"
    using c12[OF conjI[OF s12 f12]] by (rule conjunct2)
  have s13: "Run_setup (status_world 404 ''404 Not Found'') =
      Returns (Inr (''http://example.com/file'', None, ?opts))"
    by code_simp
  have f13: "terminal (status_world 404 ''404 Not Found'') 0 ''http://example.com/file'' =
      Some (''http://example.com/file'',
            ok_response\<lparr>resp_StatusCode := 404, resp_Status := ''404 Not Found''\<rparr>)"
    by code_simp
  have n13: "resp_StatusCode (ok_response\<lparr>resp_StatusCode := 404, resp_Status := ''404 Not Found''\<rparr>) \<noteq> 200"
    by simp
  have k13: "\<not> follow_canceled (status_world 404 ''404 Not Found'')"
    by (simp add: status_world_def plain_world_def)
  have w13: "main spec_ops (status_world 404 ''404 Not Found'') = Returns 3"
    using c13[OF conjI[OF s13 conjI[OF f13 conjI[OF n13 k13]]]] by (rule conjunct2)
  have lg: "cmd_dlogger \<lparr>cmd_Debug = False, cmd_dlogger = True\<rparr> \<or>
      \<not> cmd_Debug \<lparr>cmd_Debug = False, cmd_dlogger = True\<rparr>"
    by simp
  have e14: "Some (WithMessage ErrGiveUp ''P01'') \<noteq> None" by simp
  have w14: "Exit \<lparr>cmd_Debug = False, cmd_dlogger = True\<rparr>
     (WithMessage_nil (fst (Run_joined spec_ops interrupted_world default_options
           ''http://example.com/file'' saved_session (Some (WithMessage ErrGiveUp ''P01'')))) ''run'') = Returns 1"
    using c14[OF conjI[OF e14 conjI[OF k11(2) lg]]] by (rule conjunct2)
  have k15: "\<not> wait_canceled plain_world" by (simp add: plain_world_def)
  have n15: "\<not> (opt_Parts default_options \<noteq> 0 \<and>
       (totalWritten spec_ops (actualPartsOnly spec_ops saved_session) =
          ContentLength (actualPartsOnly spec_ops saved_session) \<or>
        ContentLength (actualPartsOnly spec_ops saved_session) \<le>s 0))"
    by code_simp
  have w15: "Exit \<lparr>cmd_Debug = False, cmd_dlogger = True\<rparr>
     (WithMessage_nil (fst (Run_joined spec_ops plain_world default_options
           ''http://example.com/file'' saved_session (Some (WithMessage ErrGiveUp ''P01'')))) ''run'') = Returns 3"
    using c15[OF conjI[OF k15 conjI[OF n15 lg]]] by (rule conjunct2)
  from w2 w3 w4 w5 w6 w8 w9 w10 w11 w12 w13 w14 w15 show ?thesis by blast
qed

text \<open>
  The claim as stated fails for the two errors that are not wrapped in \<open>ExpectedError\<close>: a
  terminal 404 and a worker that gave up both end in exit code 3, not 1.
\<close>

theorem exit_codes_counterexample:
  "Run spec_ops (status_world 404 ''404 Not Found'') =
     Returns (Some (WithMessage (WithMessage (Fundamental ''unexpected status: %s'' [S ''404 Not Found''])
                ''follow'') ''run''),
              [], \<lparr>cmd_Debug = False, cmd_dlogger = True\<rparr>) \<and>
   main spec_ops (status_world 404 ''404 Not Found'') = Returns 3 \<and>
   (case Run spec_ops giving_up_world of Returns (err, evs, c) \<Rightarrow> err | Panics m \<Rightarrow> None) =
     Some (WithMessage (WithMessage ErrGiveUp ''P01'') ''run'') \<and>
   main spec_ops giving_up_world = Returns 3"
  by code_simp

section \<open>Orchestrator: resuming against a changed resource\<close>

lemma Run_setup_resume:
  assumes "parse_args wd = (opts, Inr args)" "\<not> opt_Version opts" "opt_JSONFileName opts \<noteq> []"
    and "credentials wd opts = Inr pass"
    and "load_state wd (opt_JSONFileName opts) = Inr lastSession"
    and "HeaderMap lastSession = Some h"
    and "jar_new wd = None"
  shows "\<exists>opts'. Run_setup wd = Returns (Inr (Location lastSession, Some lastSession, opts')) \<and>
           opt_OutFileName opts' = SuggestedFileName lastSession"
  using assms by (simp add: Run_setup_def entry_def ensure_user_agent_def)

text \<open>
  A state file without header map: the assignment of the default \<open>User-Agent\<close> panics,
  before the session is resolved.
\<close>

lemma Run_nil_HeaderMap:
  assumes "parse_args wd = (opts, Inr args)" "\<not> opt_Version opts" "opt_JSONFileName opts \<noteq> []"
    and "credentials wd opts = Inr pass"
    and "load_state wd (opt_JSONFileName opts) = Inr lastSession"
    and "HeaderMap lastSession = None"
  shows "Run ops wd = Panics ''assignment to entry in nil map''"
  using assms by (simp add: Run_def Run_setup_def entry_def ensure_user_agent_def)

text \<open>
  C2. A run with \<open>--continue\<close> whose state file loads (with a header map that is not nil,
  without which \<open>Run\<close> does not get as far as resolving the session) and whose URL resolves
  to a session with another \<open>ContentMD5\<close> or another \<open>ContentLength\<close> returns the
  mismatch error (with the two values), and the list of its events is empty: no worker was
  started, and no part file, output file or state file was created, changed or deleted.
\<close>

theorem resume_mismatch:
  assumes "parse_args wd = (opts, Inr args)" and "\<not> opt_Version opts"
    and "opt_JSONFileName opts \<noteq> []"
    and "credentials wd opts = Inr pass"
    and "load_state wd (opt_JSONFileName opts) = Inr lastSession"
    and "HeaderMap lastSession = Some h"
    and "jar_new wd = None"
    and "follow wd (SuggestedFileName lastSession) (Location lastSession) = (Some session, None)"
    and "ContentMD5 lastSession \<noteq> ContentMD5 session \<or>
         ContentLength lastSession \<noteq> ContentLength session"
  shows "Run ops wd =
    Returns
      (Some (WithMessage
         (if ContentMD5 lastSession \<noteq> ContentMD5 session
          then Fundamental ''ContentMD5 mismatch: remote %q expected %q''
                 [S (ContentMD5 session), S (ContentMD5 lastSession)]
          else Fundamental ''ContentLength mismatch: remote %d expected %d''
                 [I (ContentLength session), I (ContentLength lastSession)])
         ''run''),
       [], \<lparr>cmd_Debug = opt_Debug opts, cmd_dlogger = True\<rparr>)"
proof -
  from Run_setup_resume[OF assms(1-7)] obtain opts' where
    s: "Run_setup wd = Returns (Inr (Location lastSession, Some lastSession, opts'))"
    and o: "opt_OutFileName opts' = SuggestedFileName lastSession"
    by blast
  from assms(8) o have f: "follow wd (opt_OutFileName opts') (Location lastSession) = (Some session, None)"
    by simp
  from Run_of_session[OF s f, of ops] assms(1,9) show ?thesis
    by (auto simp: Run_session_def WithMessage_nil_def)
qed

theorem resume_mismatch_witness:
  "ContentMD5 saved_session \<noteq> [] \<and>
   Run spec_ops resuming_world =
     Returns
       (Some (WithMessage (Fundamental ''ContentMD5 mismatch: remote %q expected %q'' [S [], S ''abc''])
          ''run''),
        [], \<lparr>cmd_Debug = False, cmd_dlogger = True\<rparr>)"
proof -
  let ?opts = "default_options\<lparr>opt_JSONFileName := ''file.json''\<rparr>"
  let ?fresh = "\<lparr>Location = ''http://example.com/file'', SuggestedFileName = ''file'',
      ContentMD5 = [], AcceptRanges = ''bytes'', ContentType = [], StatusCode = 200,
      ContentLength = 11, HeaderMap = None, Parts = []\<rparr>"
  have h1: "parse_args resuming_world = (?opts, Inr [])"
    by (simp add: resuming_world_def plain_world_def)
  have h2: "\<not> opt_Version ?opts" by (simp add: default_options_def)
  have h3: "opt_JSONFileName ?opts \<noteq> []" by simp
  have h4: "credentials resuming_world ?opts = Inr []"
    by (simp add: credentials_def default_options_def)
  have h5: "load_state resuming_world (opt_JSONFileName ?opts) = Inr saved_session"
    by (simp add: resuming_world_def)
  have h6: "HeaderMap saved_session = Some [(''User-Agent'', ''curl'')]"
    by (simp add: saved_session_def)
  have h7: "jar_new resuming_world = None"
    by (simp add: resuming_world_def plain_world_def)
  have h8: "follow resuming_world (SuggestedFileName saved_session) (Location saved_session) =
      (Some ?fresh, None)"
    by code_simp
  have h9: "ContentMD5 saved_session \<noteq> ContentMD5 ?fresh \<or>
      ContentLength saved_session \<noteq> ContentLength ?fresh"
    by (simp add: saved_session_def)
  have m: "ContentMD5 saved_session = ''abc''" "opt_Debug ?opts = False"
    by (simp_all add: saved_session_def default_options_def)
  from resume_mismatch[OF h1 h2 h3 h4 h5 h6 h7 h8 h9, of spec_ops] m show ?thesis
    by simp
qed

section \<open>Orchestrator: after the join\<close>

lemma Run_transfer_joined:
  "\<exists>ps errs evs. start_workers wd opts 0 (Parts session) = (ps, errs, evs) \<and>
     Run_transfer ops wd opts userUrl session =
       (fst (Run_joined ops wd opts userUrl (session\<lparr>Parts := ps\<rparr>) (Wait wd errs)),
        evs @ snd (Run_joined ops wd opts userUrl (session\<lparr>Parts := ps\<rparr>) (Wait wd errs)))"
  by (cases "start_workers wd opts 0 (Parts session)")
     (simp add: Run_transfer_def split: prod.splits)

text \<open>
  C3, as amended. After the join \<open>Run\<close> calls \<open>concatenateParts\<close> exactly when it is not the
  case that a worker failed and the context is cancelled, the option \<open>Parts\<close> is not 0, and
  the total written equals \<open>ContentLength\<close> or \<open>ContentLength \<le> 0\<close>; whether a part has data
  is not asked. In every other case, cancellation included, its only event is saving the state
  under \<open><SuggestedFileName>.json\<close> with \<open>Location\<close> set to the URL the user gave.
\<close>

theorem concatenate_or_save:
  "(ConcatenateParts \<in> set (snd (Run_joined ops wd opts userUrl session err)) \<longleftrightarrow>
      \<not> (err \<noteq> None \<and> wait_canceled wd) \<and> opt_Parts opts \<noteq> 0 \<and>
      (totalWritten ops (actualPartsOnly ops session) = ContentLength (actualPartsOnly ops session) \<or>
       ContentLength (actualPartsOnly ops session) \<le>s 0)) \<and>
   (ConcatenateParts \<notin> set (snd (Run_joined ops wd opts userUrl session err)) \<longleftrightarrow>
      snd (Run_joined ops wd opts userUrl session err) =
        [SaveState (SuggestedFileName (actualPartsOnly ops session) @ ''.json'')
           ((actualPartsOnly ops session)\<lparr>Location := userUrl\<rparr>)])"
  by (auto simp: Run_joined_def Let_def split: option.splits)

text \<open>
  The claim as stated fails where the length is unknown and nothing was written: the total
  written (0) differs from \<open>ContentLength\<close> (-1) and no part has data, yet the parts are
  concatenated and \<open>Run\<close> returns nil.
\<close>

theorem concatenate_or_save_counterexample:
  "totalWritten spec_ops (actualPartsOnly spec_ops unknown_length_session) = 0 \<and>
   ContentLength (actualPartsOnly spec_ops unknown_length_session) = - 1 \<and>
   map Written (Parts (actualPartsOnly spec_ops unknown_length_session)) = [0] \<and>
   \<not> wait_canceled plain_world \<and>
   Run_joined spec_ops plain_world default_options ''http://example.com/file''
     unknown_length_session (Some (WithMessage ErrGiveUp ''P01'')) = (None, [ConcatenateParts]) \<and>
   Run spec_ops unknown_length_world =
     Returns (None, [StartWorker 0, ConcatenateParts], \<lparr>cmd_Debug = False, cmd_dlogger = True\<rparr>)"
  by code_simp

end
